theory Spec2Isabelle
  imports Complex_Main "HOL-Library.AList" "HOL-Library.Char_ord" "HOL-Library.List_Lexorder"
begin

section \<open>Python values and exceptions\<close>

text \<open>
  Exceptions are values of the type \<open>exn\<close>; a computation that may raise returns
  \<open>exn + 'a\<close>, with \<open>Inl\<close> for the raised exception. \<open>IOError\<close> stands for
  Python's \<open>OSError\<close> and its subclasses other than \<open>FileNotFoundError\<close>,
  \<open>ValueError\<close> for the \<open>ValueError\<close>s other than \<open>JSONDecodeError\<close>, and
  \<open>OtherException\<close> for the subclasses of \<open>Exception\<close> that are not listed.
\<close>

datatype exn =
    KeyboardInterrupt
  | ZeroDivisionError
  | FileNotFoundError
  | IOError
  | IndexError
  | TypeError
  | ValueError
  | KeyError
  | JSONDecodeError
  | RecursionError
  | OverflowError
  | CalledProcessError
  | OtherException

text \<open>\<open>except Exception\<close> catches every exception of the model but \<open>KeyboardInterrupt\<close>.\<close>

fun is_Exception :: "exn \<Rightarrow> bool" where
  "is_Exception KeyboardInterrupt = False"
| "is_Exception _ = True"

text \<open>
  A Python number is modelled by the real number it stands for. The clock arithmetic
  of the sender and the pacing and throughput formulas are read as the source's
  expressions over the reals, with \<open>truediv\<close> for the true division \<open>a / b\<close>. The
  floating-point operations whose results go to the metrics and result files are
  taken from the interpreter: see \<open>floats\<close> below.
\<close>

definition truediv :: "real \<Rightarrow> real \<Rightarrow> exn + real" where
  "truediv a b = (if b = 0 then Inl ZeroDivisionError else Inr (a / b))"

section \<open>JSON values\<close>

text \<open>
  The values \<open>json.loads\<close> returns. A JSON number is a real (Python's \<open>int\<close> and
  \<open>float\<close> are not told apart; NaN and the infinities are left out); an object is
  the association list of its members.
\<close>

datatype json =
    JNull
  | JBool bool
  | JNum real
  | JStr string
  | JArr "json list"
  | JObj "(string \<times> json) list"

text \<open>
  \<open>data[name]\<close> for a string \<open>name\<close>: a missing member of a dict raises
  \<open>KeyError\<close>; subscripting any other JSON value with a string raises \<open>TypeError\<close>.
\<close>

fun subscript :: "json \<Rightarrow> string \<Rightarrow> exn + json" where
  "subscript (JObj kv) name =
     (case map_of kv name of None \<Rightarrow> Inl KeyError | Some v \<Rightarrow> Inr v)"
| "subscript _ name = Inl TypeError"

text \<open>
  Dictionary keys. Lists and dicts are unhashable (\<open>TypeError\<close>); \<open>True\<close> and
  \<open>False\<close> are the same keys as \<open>1\<close> and \<open>0\<close>.
\<close>

datatype key = KNone | KNum real | KStr string

fun hash_key :: "json \<Rightarrow> exn + key" where
  "hash_key JNull = Inr KNone"
| "hash_key (JBool b) = Inr (KNum (if b then 1 else 0))"
| "hash_key (JNum r) = Inr (KNum r)"
| "hash_key (JStr s) = Inr (KStr s)"
| "hash_key (JArr _) = Inl TypeError"
| "hash_key (JObj _) = Inl TypeError"

text \<open>
  \<open>sorted(keys)\<close>: numbers sort among themselves and strings among themselves (by
  code point); comparing \<open>None\<close> with anything, or a number with a string, raises
  \<open>TypeError\<close>. The keys of a dict are distinct, so a list with \<open>None\<close> sorts only
  when it has no other element.
\<close>

fun is_KNum :: "key \<Rightarrow> bool" where
  "is_KNum (KNum _) = True"
| "is_KNum _ = False"

fun is_KStr :: "key \<Rightarrow> bool" where
  "is_KStr (KStr _) = True"
| "is_KStr _ = False"

fun num_val :: "key \<Rightarrow> real" where
  "num_val (KNum r) = r"
| "num_val _ = 0"

fun str_val :: "key \<Rightarrow> string" where
  "str_val (KStr s) = s"
| "str_val _ = []"

definition sorted_keys :: "key list \<Rightarrow> exn + key list" where
  "sorted_keys ks =
     (if list_all is_KNum ks then Inr (map KNum (sort (map num_val ks)))
      else if list_all is_KStr ks then Inr (map KStr (sort (map str_val ks)))
      else if length ks \<le> 1 then Inr ks
      else Inl TypeError)"

text \<open>
  Floating point. The results of \<open>sum(values)\<close>, of the true division of that sum
  by a length, of \<open>x * y\<close> and of \<open>round(x, 2)\<close> depend on the interpreter's
  floating-point arithmetic (and, for \<open>sum\<close>, on its summation algorithm). The model
  takes these four operations from the interpreter, as a parameter \<open>fp\<close>:
  \<open>float_sum fp values\<close> is \<open>sum(values)\<close> for a list of JSON values, or the
  exception it raises; \<open>float_div fp x y\<close> is \<open>x / y\<close>, or the exception it raises;
  \<open>float_mul fp x y\<close> is \<open>x * y\<close>; \<open>float_round2 fp x\<close> is \<open>round(x, 2)\<close> for a
  float \<open>x\<close>. As for the JSON values, a result is a finite number. The theorems
  about the code hold for every \<open>fp\<close>.
\<close>

record floats =
  float_sum :: "json list \<Rightarrow> exn + real"
  float_div :: "real \<Rightarrow> real \<Rightarrow> exn + real"
  float_mul :: "real \<Rightarrow> real \<Rightarrow> real"
  float_round2 :: "real \<Rightarrow> real"

text \<open>The expression \<open>sum(values) / len(values)\<close> of lines 75 and 85.\<close>

definition float_mean :: "floats \<Rightarrow> json list \<Rightarrow> exn + real" where
  "float_mean fp vs =
     (case float_sum fp vs of
        Inl e \<Rightarrow> Inl e
      | Inr s \<Rightarrow> float_div fp s (real (length vs)))"

text \<open>\<open>int(x)\<close> truncates a float towards zero.\<close>

definition py_int :: "real \<Rightarrow> int" where
  "py_int x = (if 0 \<le> x then \<lfloor>x\<rfloor> else \<lceil>x\<rceil>)"

text \<open>
  \<open>str.strip()\<close>: leading and trailing whitespace removed. A character of the model
  is a code point below 256; those that \<open>str.isspace()\<close> accepts are listed.
\<close>

definition is_space :: "char \<Rightarrow> bool" where
  "is_space c = (c \<in> set [CHR 0x09, CHR 0x0A, CHR 0x0B, CHR 0x0C, CHR 0x0D,
                           CHR 0x1C, CHR 0x1D, CHR 0x1E, CHR 0x1F, CHR 0x20,
                           CHR 0x85, CHR 0xA0])"

definition strip :: "string \<Rightarrow> string" where
  "strip s = rev (dropWhile is_space (rev (dropWhile is_space s)))"

section \<open>Aggregation of the raw metrics (helper\_quic.py)\<close>

text \<open>
  \<open>metrics_by_time\<close> is a \<open>defaultdict\<close> from the \<open>time\<close> key to the two lists
  \<open>rtt\<close> and \<open>cwnd\<close>: an association list in insertion order, with distinct keys.
\<close>

record entry =
  rtt :: "json list"
  cwnd :: "json list"

type_synonym metrics = "(key \<times> entry) list"

text \<open>\<open>metrics_by_time[t]\<close>: a missing key is inserted with two empty lists.\<close>

definition get_default :: "key \<Rightarrow> metrics \<Rightarrow> metrics" where
  "get_default t m =
     (case map_of m t of
        None \<Rightarrow> AList.update t \<lparr>rtt = [], cwnd = []\<rparr> m
      | Some _ \<Rightarrow> m)"

definition entry_of :: "metrics \<Rightarrow> key \<Rightarrow> entry" where
  "entry_of m t = (case map_of m t of None \<Rightarrow> \<lparr>rtt = [], cwnd = []\<rparr> | Some e \<Rightarrow> e)"

definition append_rtt :: "key \<Rightarrow> json \<Rightarrow> metrics \<Rightarrow> metrics" where
  "append_rtt t v m = AList.update t ((entry_of m t)\<lparr>rtt := rtt (entry_of m t) @ [v]\<rparr>) m"

definition append_cwnd :: "key \<Rightarrow> json \<Rightarrow> metrics \<Rightarrow> metrics" where
  "append_cwnd t v m = AList.update t ((entry_of m t)\<lparr>cwnd := cwnd (entry_of m t) @ [v]\<rparr>) m"

text \<open>
  The body of the inner \<open>try\<close> (lines 51-54) on one line of the file. \<open>loads\<close> is
  \<open>json.loads\<close>: the value it returns, or the exception it raises. Python evaluates
  \<open>metrics_by_time[t]['rtt'].append\<close> before the argument \<open>data['rtt_ms']\<close>, so the
  key \<open>t\<close> is inserted even when \<open>rtt_ms\<close> is missing, and \<open>rtt_ms\<close> is appended
  even when \<open>cwnd_bytes\<close> is missing. The metrics are returned as they stand when the
  exception is raised.
\<close>

definition line_body ::
  "(string \<Rightarrow> exn + json) \<Rightarrow> string \<Rightarrow> metrics \<Rightarrow> (exn + unit) \<times> metrics" where
  "line_body loads line m =
     (case loads (strip line) of
        Inl e \<Rightarrow> (Inl e, m)
      | Inr data \<Rightarrow>
         (case subscript data ''time'' of
            Inl e \<Rightarrow> (Inl e, m)
          | Inr tj \<Rightarrow>
             (case hash_key tj of
                Inl e \<Rightarrow> (Inl e, m)
              | Inr t \<Rightarrow>
                 (let m1 = get_default t m in
                  case subscript data ''rtt_ms'' of
                    Inl e \<Rightarrow> (Inl e, m1)
                  | Inr r \<Rightarrow>
                     (let m2 = get_default t (append_rtt t r m1) in
                      case subscript data ''cwnd_bytes'' of
                        Inl e \<Rightarrow> (Inl e, m2)
                      | Inr c \<Rightarrow> (Inr (), append_cwnd t c m2))))))"

text \<open>
  The \<open>for line in f\<close> loop (lines 49-57): \<open>JSONDecodeError\<close> and \<open>KeyError\<close> are
  caught and the loop continues; any other exception leaves the loop.
\<close>

fun read_lines ::
  "(string \<Rightarrow> exn + json) \<Rightarrow> string list \<Rightarrow> metrics \<Rightarrow> exn + metrics" where
  "read_lines loads [] m = Inr m"
| "read_lines loads (line # rest) m =
     (case line_body loads line m of
        (Inr u, m') \<Rightarrow> read_lines loads rest m'
      | (Inl e, m') \<Rightarrow>
          if e = JSONDecodeError \<or> e = KeyError then read_lines loads rest m'
          else Inl e)"

text \<open>
  The loop of lines 73-76 over the sorted keys: a second with an empty \<open>rtt\<close> list
  writes no row. The rows written before an exception stay in the file.
\<close>

fun rtt_rows :: "floats \<Rightarrow> metrics \<Rightarrow> key list \<Rightarrow> exn option \<times> (key \<times> real) list" where
  "rtt_rows fp m [] = (None, [])"
| "rtt_rows fp m (t # ts) =
     (if rtt (entry_of m t) \<noteq> [] then
        (case float_mean fp (rtt (entry_of m t)) of
           Inl e \<Rightarrow> (Some e, [])
         | Inr avg_rtt \<Rightarrow>
            (let (ex, rows) = rtt_rows fp m ts
             in (ex, (t, float_round2 fp avg_rtt) # rows)))
      else rtt_rows fp m ts)"

text \<open>The loop of lines 83-86, for \<open>cwnd.csv\<close>.\<close>

fun cwnd_rows :: "floats \<Rightarrow> metrics \<Rightarrow> key list \<Rightarrow> exn option \<times> (key \<times> int) list" where
  "cwnd_rows fp m [] = (None, [])"
| "cwnd_rows fp m (t # ts) =
     (if cwnd (entry_of m t) \<noteq> [] then
        (case float_mean fp (cwnd (entry_of m t)) of
           Inl e \<Rightarrow> (Some e, [])
         | Inr avg_rtt \<Rightarrow>
            (let (ex, rows) = cwnd_rows fp m ts
             in (ex, (t, py_int avg_rtt) # rows)))
      else cwnd_rows fp m ts)"

text \<open>
  What \<open>aggregate_metrics\<close> leaves behind: it returns early with a warning and writes
  nothing; or it writes the data rows of \<open>rtt.csv\<close> and of \<open>cwnd.csv\<close>; or an
  exception leaves it, with the rows written to each file so far (\<open>None\<close> for a file
  that was not opened).
\<close>

datatype agg_outcome =
    Skipped string
  | Saved "(key \<times> real) list" "(key \<times> int) list"
  | Failed exn "(key \<times> real) list option" "(key \<times> int) list option"

text \<open>
  The block of the outer \<open>try\<close> (lines 48-57): the file is opened and its lines are
  read. The file is the list of its lines, or the exception that opening it raises.
\<close>

definition read_file :: "(string \<Rightarrow> exn + json) \<Rightarrow> exn + string list \<Rightarrow> exn + metrics" where
  "read_file loads file =
     (case file of
        Inl e \<Rightarrow> Inl e
      | Inr lines \<Rightarrow> read_lines loads lines [])"

text \<open>
  \<open>aggregate_metrics\<close>. A \<open>FileNotFoundError\<close> or an \<open>IOError\<close> that leaves the
  outer \<open>try\<close> ends the aggregation with a warning (lines 58-63); any other
  exception leaves the function.
\<close>

definition aggregate_metrics ::
  "floats \<Rightarrow> (string \<Rightarrow> exn + json) \<Rightarrow> exn + string list \<Rightarrow> agg_outcome" where
  "aggregate_metrics fp loads file =
     (case read_file loads file of
        Inl e \<Rightarrow>
          if e = FileNotFoundError then Skipped ''*** Warning: Metrics file not found''
          else if e = IOError then Skipped ''*** Warning: Could not read metrics file''
          else Failed e None None
      | Inr metrics_by_time \<Rightarrow>
         (case sorted_keys (map fst metrics_by_time) of
            Inl e \<Rightarrow> Failed e (Some []) None
          | Inr ts \<Rightarrow>
             (case rtt_rows fp metrics_by_time ts of
                (Some e, rows) \<Rightarrow> Failed e (Some rows) None
              | (None, rows) \<Rightarrow>
                 (case cwnd_rows fp metrics_by_time ts of
                    (Some e, crows) \<Rightarrow> Failed e (Some rows) (Some crows)
                  | (None, crows) \<Rightarrow> Saved rows crows))))"

text \<open>The data rows of \<open>rtt.csv\<close> that an outcome leaves, if the file was opened.\<close>

fun rtt_csv :: "agg_outcome \<Rightarrow> (key \<times> real) list option" where
  "rtt_csv (Skipped warning) = None"
| "rtt_csv (Saved rows crows) = Some rows"
| "rtt_csv (Failed e rows crows) = rows"

section \<open>The samples of a second\<close>

text \<open>
  The \<open>rtt_ms\<close> sample of a line, with its \<open>time\<close> key: the line is a JSON object
  with a hashable \<open>time\<close> and an \<open>rtt_ms\<close> member. Its \<open>cwnd_bytes\<close> sample
  needs all three members.
\<close>

definition rtt_sample :: "(string \<Rightarrow> exn + json) \<Rightarrow> string \<Rightarrow> (key \<times> json) option" where
  "rtt_sample loads line =
     (case loads (strip line) of
        Inr (JObj kv) \<Rightarrow>
          (case map_of kv ''time'' of
             Some tj \<Rightarrow>
               (case hash_key tj of
                  Inr t \<Rightarrow> (case map_of kv ''rtt_ms'' of Some r \<Rightarrow> Some (t, r) | None \<Rightarrow> None)
                | Inl e \<Rightarrow> None)
           | None \<Rightarrow> None)
      | _ \<Rightarrow> None)"

definition cwnd_sample :: "(string \<Rightarrow> exn + json) \<Rightarrow> string \<Rightarrow> (key \<times> json) option" where
  "cwnd_sample loads line =
     (case loads (strip line) of
        Inr (JObj kv) \<Rightarrow>
          (case map_of kv ''time'' of
             Some tj \<Rightarrow>
               (case hash_key tj of
                  Inr t \<Rightarrow>
                    (case map_of kv ''rtt_ms'' of
                       Some r \<Rightarrow>
                         (case map_of kv ''cwnd_bytes'' of
                            Some c \<Rightarrow> Some (t, c)
                          | None \<Rightarrow> None)
                     | None \<Rightarrow> None)
                | Inl e \<Rightarrow> None)
           | None \<Rightarrow> None)
      | _ \<Rightarrow> None)"

text \<open>The samples of a file for the key \<open>t\<close>, in the order of the lines.\<close>

definition at_key :: "key \<Rightarrow> (key \<times> json) option \<Rightarrow> json list" where
  "at_key t s = (case s of Some (t', v) \<Rightarrow> if t' = t then [v] else [] | None \<Rightarrow> [])"

definition rtt_samples :: "(string \<Rightarrow> exn + json) \<Rightarrow> string list \<Rightarrow> key \<Rightarrow> json list" where
  "rtt_samples loads lines t = concat (map (\<lambda>line. at_key t (rtt_sample loads line)) lines)"

definition cwnd_samples :: "(string \<Rightarrow> exn + json) \<Rightarrow> string list \<Rightarrow> key \<Rightarrow> json list" where
  "cwnd_samples loads lines t = concat (map (\<lambda>line. at_key t (cwnd_sample loads line)) lines)"

text \<open>
  The number a JSON value counts as in a sum: booleans count as 1 and 0; a value
  that is not a number (\<open>None\<close>, a string, a list, a dict) cannot be added
  (\<open>TypeError\<close>).
\<close>

fun num_of :: "json \<Rightarrow> exn + real" where
  "num_of (JNum r) = Inr r"
| "num_of (JBool b) = Inr (if b then 1 else 0)"
| "num_of _ = Inl TypeError"

text \<open>\<open>a\<close> is the arithmetic mean of the values \<open>vs\<close>, all of them numbers.\<close>

definition is_mean_of :: "real \<Rightarrow> json list \<Rightarrow> bool" where
  "is_mean_of a vs \<longleftrightarrow>
     (\<exists>xs. map num_of vs = map Inr xs \<and> a = sum_list xs / real (length xs))"

section \<open>The interpreter of the examples\<close>

text \<open>
  The numbers that reach the floating-point operations in the examples below are
  binary fractions of a few digits (the samples 20.5, 21.25 and 31.25, the smoothed
  RTT 1/32, the throughputs 10 and 5), and so are their sums, products and quotients
  there (41.75, 20.875): on them floating-point addition, multiplication and
  division are exact, and \<open>round(x, 2)\<close> gives the float that prints as the multiple
  of 0.01 nearest to \<open>x\<close>, a tie going to the even multiple. \<open>example_floats\<close>
  computes in this way: \<open>sum\<close> starts from 0 and adds from the left, the division
  and the product are those of the reals, and \<open>round(x, 2)\<close> is the decimal rounding.
  It stands for the interpreter on such numbers only.
\<close>

fun exact_sum_from :: "real \<Rightarrow> json list \<Rightarrow> exn + real" where
  "exact_sum_from acc [] = Inr acc"
| "exact_sum_from acc (v # vs) =
     (case num_of v of Inl e \<Rightarrow> Inl e | Inr r \<Rightarrow> exact_sum_from (acc + r) vs)"

definition exact_sum :: "json list \<Rightarrow> exn + real" where
  "exact_sum vs = exact_sum_from 0 vs"

definition round_half_even :: "real \<Rightarrow> int" where
  "round_half_even x =
     (let f = \<lfloor>x\<rfloor>; d = x - of_int f
      in if d < 1 / 2 then f else if 1 / 2 < d then f + 1
         else if even f then f else f + 1)"

definition decimal_round2 :: "real \<Rightarrow> real" where
  "decimal_round2 x = of_int (round_half_even (x * 100)) / 100"

definition example_floats :: floats where
  "example_floats =
     \<lparr>float_sum = exact_sum,
      float_div = truediv,
      float_mul = (\<lambda>x y. x * y),
      float_round2 = decimal_round2\<rparr>"

text \<open>
  \<open>json.loads\<close> on the lines of the examples below. A line of a hundred
  thousand or more opening brackets exceeds the recursion limit of the decoder,
  which raises \<open>RecursionError\<close>; the other lines that are not listed are
  rejected with \<open>JSONDecodeError\<close>.
\<close>

definition example_loads :: "string \<Rightarrow> exn + json" where
  \<open>example_loads s =
     (if list_all (\<lambda>c. c = CHR ''['') s \<and> 100000 \<le> length s then
        Inl RecursionError
      else if s = ''{"time": 1, "rtt_ms": 20.5}'' then
        Inr (JObj [(''time'', JNum 1), (''rtt_ms'', JNum (205 / 10))])
      else if s = ''{"time": 1, "rtt_ms": 21.25}'' then
        Inr (JObj [(''time'', JNum 1), (''rtt_ms'', JNum (2125 / 100))])
      else if s = ''{"time": 1, "rtt_ms": 31.25}'' then
        Inr (JObj [(''time'', JNum 1), (''rtt_ms'', JNum (3125 / 100))])
      else if s = ''{"time": 2}'' then
        Inr (JObj [(''time'', JNum 2)])
      else Inl JSONDecodeError)\<close>
section \<open>Paced sender (quic\_client.py)\<close>

text \<open>
  \<open>if target_rate_mbps:\<close> tests the truth value of an \<open>Optional[float]\<close>:
  \<open>None\<close> and \<open>0\<close> are false, every other number is true.
\<close>

fun truthy :: "real option \<Rightarrow> bool" where
  "truthy None = False"
| "truthy (Some r) = (r \<noteq> 0)"

text \<open>Lines 51-61 of \<open>send_data_with_metrics\<close>: the sleep between two chunks.\<close>

definition sleep_time :: "real option \<Rightarrow> int \<Rightarrow> exn + real" where
  "sleep_time target_rate_mbps chunk_size =
     (if truthy target_rate_mbps then
        (let target_bytes_per_sec = (the target_rate_mbps * 1000000) / 8
         in truediv (real_of_int chunk_size) target_bytes_per_sec)
      else
        (let target_bytes_per_sec = (15 * 1000000) / 8
         in truediv (real_of_int chunk_size) target_bytes_per_sec))"

text \<open>
  Lines 121-122: \<open>elapsed = time.time() - send_start\<close>,
  \<open>sleep_duration = max(0, sleep_time - elapsed)\<close>.
\<close>

definition sleep_duration :: "real \<Rightarrow> real \<Rightarrow> real" where
  "sleep_duration st elapsed = max 0 (st - elapsed)"

text \<open>
  The per-second sample (lines 82-118). \<open>rtt_smoothed\<close> is the transport engine's
  \<open>_rtt_smoothed\<close>, \<open>None\<close> when reading it raises \<open>AttributeError\<close> or
  \<open>TypeError\<close>: then \<open>rtt_ms\<close> is the integer 0, which \<open>round\<close> returns as it is.
  The congestion window and the byte count are commented out in the source, so the
  record has the two members \<open>time\<close> and \<open>rtt_ms\<close>.
\<close>

definition make_metric :: "floats \<Rightarrow> real \<Rightarrow> real \<Rightarrow> real option \<Rightarrow> json" where
  "make_metric fp start_time current_time rtt_smoothed =
     (let elapsed = py_int (current_time - start_time);
          rounded = (case rtt_smoothed of
                       Some s \<Rightarrow> float_round2 fp (float_mul fp s 1000)
                     | None \<Rightarrow> 0)
      in JObj [(''time'', JNum (of_int elapsed)), (''rtt_ms'', JNum rounded)])"

record sender =
  bytes_sent :: int
  last_log_time :: real
  last_bytes :: int
  metrics_buffer :: "json list"

text \<open>
  What one pass of the transmission loop sees: the clock at the loop test, the clock
  read as \<open>current_time\<close>, and the engine's smoothed RTT.
\<close>

record tick =
  test_time :: real
  current_time :: real
  rtt_smoothed :: "real option"

text \<open>Lines 71-118: one chunk is sent, and once a second a sample is buffered.\<close>

definition loop_body :: "floats \<Rightarrow> real \<Rightarrow> int \<Rightarrow> tick \<Rightarrow> sender \<Rightarrow> sender" where
  "loop_body fp start_time chunk_size k c =
     (let c1 = c\<lparr>bytes_sent := bytes_sent c + chunk_size\<rparr>
      in if 1 \<le> current_time k - last_log_time c1 then
           c1\<lparr>metrics_buffer :=
                 metrics_buffer c1 @ [make_metric fp start_time (current_time k) (rtt_smoothed k)],
               last_log_time := current_time k,
               last_bytes := bytes_sent c1\<rparr>
         else c1)"

text \<open>
  The loop \<open>while time.time() < end_time\<close> over the passes the clock allows. The
  result is \<open>None\<close> when the listed passes end before the clock reaches \<open>end_time\<close>.
\<close>

fun send_loop ::
  "floats \<Rightarrow> real \<Rightarrow> real \<Rightarrow> int \<Rightarrow> tick list \<Rightarrow> sender \<Rightarrow> sender option" where
  "send_loop fp start_time end_time chunk_size [] c = None"
| "send_loop fp start_time end_time chunk_size (k # ks) c =
     (if test_time k < end_time
      then send_loop fp start_time end_time chunk_size ks
             (loop_body fp start_time chunk_size k c)
      else Some c)"

text \<open>
  Lines 126-133: the buffered samples are appended to the shared file in one batch,
  each as \<open>json.dumps(m) + '\n'\<close>. \<open>can_open\<close> is false when opening the file
  raises \<open>IOError\<close>, which is logged and ignored.
\<close>

definition flush_metrics ::
  "(json \<Rightarrow> string) \<Rightarrow> string \<Rightarrow> bool \<Rightarrow> json list \<Rightarrow> string list \<Rightarrow> string list" where
  "flush_metrics dumps metrics_file can_open buffer file =
     (if metrics_file \<noteq> [] \<and> buffer \<noteq> [] \<and> can_open
      then file @ map (\<lambda>m. dumps m @ [CHR 0x0A]) buffer
      else file)"

text \<open>
  The shape of a record the sender buffers, and a line of the file that
  \<open>json.loads\<close> reads back as such a record.
\<close>

definition is_sender_record :: "json \<Rightarrow> bool" where
  "is_sender_record j \<longleftrightarrow>
     (\<exists>e r. j = JObj [(''time'', JNum (of_int e)), (''rtt_ms'', JNum r)])"

definition sender_line :: "(string \<Rightarrow> exn + json) \<Rightarrow> string \<Rightarrow> bool" where
  "sender_line loads line \<longleftrightarrow> (\<exists>j. loads (strip line) = Inr j \<and> is_sender_record j)"

text \<open>\<open>json.dumps\<close> on the record of the examples below.\<close>

definition example_dumps :: "json \<Rightarrow> string" where
  \<open>example_dumps m =
     (if m = JObj [(''time'', JNum 1), (''rtt_ms'', JNum (3125 / 100))]
      then ''{"time": 1, "rtt_ms": 31.25}'' else ''null'')\<close>

section \<open>Dumbbell topology (dumbbell.py)\<close>

text \<open>\<open>f"{i}"\<close> for a natural number: its decimal digits.\<close>

definition digit_char :: "nat \<Rightarrow> char" where
  "digit_char n = ''0123456789'' ! n"

fun str_nat :: "nat \<Rightarrow> string" where
  "str_nat n =
     (if n < 10 then [digit_char n]
      else str_nat (n div 10) @ [digit_char (n mod 10)])"

declare str_nat.simps [simp del]

text \<open>
  The topology graph that \<open>build\<close> fills: the switches, the hosts, and the links
  with the port each end is plugged into.
\<close>

record link =
  node1 :: string
  port1 :: nat
  node2 :: string
  port2 :: nat

record topo =
  topo_switches :: "string list"
  topo_hosts :: "string list"
  topo_links :: "link list"

definition empty_topo :: topo where
  "empty_topo = \<lparr>topo_switches = [], topo_hosts = [], topo_links = []\<rparr>"

definition addSwitch :: "string \<Rightarrow> topo \<Rightarrow> topo" where
  "addSwitch name t = t\<lparr>topo_switches := topo_switches t @ [name]\<rparr>"

definition addHost :: "string \<Rightarrow> topo \<Rightarrow> topo" where
  "addHost name t = t\<lparr>topo_hosts := topo_hosts t @ [name]\<rparr>"

text \<open>
  \<open>addLink\<close> is the emulation platform's, not the repository's: Mininet numbers
  the ports of a node as links are added to it (\<open>Topo.addPort\<close>): a new port is the
  number of ports the node has, plus 1 on a switch, whose port 0 is reserved. The
  interface of port \<open>p\<close> of node \<open>n\<close> is named \<open>n-ethp\<close>. The constants of the
  repository agree: \<open>s1-eth21\<close> is port 21 of \<open>s1\<close>, after the 20 hosts of the
  default of 40.
\<close>

definition port_count :: "topo \<Rightarrow> string \<Rightarrow> nat" where
  "port_count t n =
     length (filter (\<lambda>l. node1 l = n) (topo_links t))
       + length (filter (\<lambda>l. node2 l = n) (topo_links t))"

definition new_port :: "topo \<Rightarrow> string \<Rightarrow> nat" where
  "new_port t n = port_count t n + (if n \<in> set (topo_switches t) then 1 else 0)"

definition addLink :: "string \<Rightarrow> string \<Rightarrow> topo \<Rightarrow> topo" where
  "addLink a b t =
     t\<lparr>topo_links := topo_links t
          @ [\<lparr>node1 = a, port1 = new_port t a, node2 = b, port2 = new_port t b\<rparr>]\<rparr>"

definition intf_name :: "string \<Rightarrow> nat \<Rightarrow> string" where
  "intf_name n p = n @ ''-eth'' @ str_nat p"

definition interfaces :: "topo \<Rightarrow> string list" where
  "interfaces t =
     concat (map (\<lambda>l. [intf_name (node1 l) (port1 l), intf_name (node2 l) (port2 l)])
       (topo_links t))"

text \<open>
  \<open>DumbbellTopo.build\<close>: the hosts \<open>h0 .. h(mid-1)\<close> on \<open>s1\<close>, the hosts
  \<open>h(mid) .. h(n-1)\<close> on \<open>s2\<close>, and last the link between \<open>s1\<close> and \<open>s2\<close>.
\<close>

fun add_hosts :: "string \<Rightarrow> nat list \<Rightarrow> topo \<Rightarrow> topo" where
  "add_hosts sw [] t = t"
| "add_hosts sw (i # is) t =
     add_hosts sw is (addLink (''h'' @ str_nat i) sw (addHost (''h'' @ str_nat i) t))"

definition build :: "nat \<Rightarrow> topo" where
  "build number_of_hosts =
     (let mid = number_of_hosts div 2;
          t0 = addSwitch ''s2'' (addSwitch ''s1'' empty_topo);
          t1 = add_hosts ''s1'' [0..<mid] t0;
          t2 = add_hosts ''s2'' [mid..<number_of_hosts] t1
      in addLink ''s1'' ''s2'' t2)"

text \<open>\<open>DumbbellTopo.switch_interface\<close>: the list of monitored interfaces.\<close>

definition dumbbell_switch_interface :: "string list" where
  "dumbbell_switch_interface = [''s1-eth21'']"

text \<open>The two interfaces of the links between switches.\<close>

definition inter_switch_interfaces :: "topo \<Rightarrow> string list" where
  "inter_switch_interfaces t =
     concat (map (\<lambda>l. [intf_name (node1 l) (port1 l), intf_name (node2 l) (port2 l)])
       (filter (\<lambda>l. node1 l \<in> set (topo_switches t) \<and> node2 l \<in> set (topo_switches t))
          (topo_links t)))"

section \<open>Run orchestrator (helper\_quic.py, experiment\_runner\_quic.py)\<close>

text \<open>
  The effects of a run, in the order they happen, form its trace. A host is its name.
\<close>

type_synonym host = string

datatype command =
    MkdirCerts
  | OpensslReq
  | StartServer
  | StartClient host real
  | PkillServer
  | PkillClient

datatype event =
    GetBytes string
  | GetRxBytes string
  | Cmd host command
  | Sleep int
  | Makedirs
  | WriteRtt "(key \<times> real) list"
  | WriteCwnd "(key \<times> int) list"
  | WriteSwitches "(string \<times> real \<times> int) list"
  | RemoveRaw
  | NetStop
  | Fault exn

type_synonym trace = "event list"

text \<open>
  What the run finds outside itself. When the trace has \<open>n\<close> events: \<open>fault n\<close>
  is the exception that interrupts the next effect (a user interrupt, an error of the
  operating system), if any, and the trace records it as \<open>Fault\<close>;
  \<open>tx_bytes n dev\<close> and \<open>rx_bytes n dev\<close> are the byte counters of the interface
  \<open>dev\<close>, \<open>None\<close> when there is no such interface.
  \<open>raw_metrics\<close> is the shared metrics file as the aggregation finds it,
  \<open>json_loads\<close> is \<open>json.loads\<close>, and \<open>floating\<close> is the interpreter's
  floating-point arithmetic.
\<close>

record env =
  fault :: "nat \<Rightarrow> exn option"
  tx_bytes :: "nat \<Rightarrow> string \<Rightarrow> int option"
  rx_bytes :: "nat \<Rightarrow> string \<Rightarrow> int option"
  raw_metrics :: "exn + string list"
  json_loads :: "string \<Rightarrow> exn + json"
  floating :: floats

text \<open>
  A step takes the trace so far and returns its result, or the exception it raises,
  with the trace extended by the effects that happened.
\<close>

type_synonym 'a io = "trace \<Rightarrow> (exn + 'a) \<times> trace"

definition io_return :: "'a \<Rightarrow> 'a io" where
  "io_return x tr = (Inr x, tr)"

definition io_raise :: "exn \<Rightarrow> 'a io" where
  "io_raise e tr = (Inl e, tr)"

definition io_bind :: "'a io \<Rightarrow> ('a \<Rightarrow> 'b io) \<Rightarrow> 'b io" where
  "io_bind m f tr = (case m tr of (Inl e, tr') \<Rightarrow> (Inl e, tr') | (Inr x, tr') \<Rightarrow> f x tr')"

definition io_lift :: "exn + 'a \<Rightarrow> 'a io" where
  "io_lift r tr = (r, tr)"

definition perform :: "env \<Rightarrow> event \<Rightarrow> unit io" where
  "perform env ev tr =
     (case fault env (length tr) of
        Some e \<Rightarrow> (Inl e, tr @ [Fault e])
      | None \<Rightarrow> (Inr (), tr @ [ev]))"

text \<open>\<open>get_bytes\<close> and \<open>get_rx_bytes\<close>: opening the counter of a missing interface
  raises \<open>FileNotFoundError\<close>.\<close>

definition get_bytes :: "env \<Rightarrow> string \<Rightarrow> int io" where
  "get_bytes env device tr =
     (case fault env (length tr) of
        Some e \<Rightarrow> (Inl e, tr @ [Fault e])
      | None \<Rightarrow>
         (case tx_bytes env (length tr) device of
            None \<Rightarrow> (Inl FileNotFoundError, tr)
          | Some tx \<Rightarrow> (Inr tx, tr @ [GetBytes device])))"

definition get_rx_bytes :: "env \<Rightarrow> string \<Rightarrow> int io" where
  "get_rx_bytes env device tr =
     (case fault env (length tr) of
        Some e \<Rightarrow> (Inl e, tr @ [Fault e])
      | None \<Rightarrow>
         (case rx_bytes env (length tr) device of
            None \<Rightarrow> (Inl FileNotFoundError, tr)
          | Some rx \<Rightarrow> (Inr rx, tr @ [GetRxBytes device])))"

text \<open>A \<open>for\<close> loop run for its effects, and one that appends a result per element.\<close>

fun for_each :: "('a \<Rightarrow> unit io) \<Rightarrow> 'a list \<Rightarrow> unit io" where
  "for_each f [] = io_return ()"
| "for_each f (x # xs) = io_bind (f x) (\<lambda>u. for_each f xs)"

fun collect :: "('a \<Rightarrow> 'b io) \<Rightarrow> 'a list \<Rightarrow> 'b list io" where
  "collect f [] = io_return []"
| "collect f (x # xs) =
     io_bind (f x) (\<lambda>v. io_bind (collect f xs) (\<lambda>vs. io_return (v # vs)))"

text \<open>\<open>generate_certificates\<close>: two commands on the host.\<close>

definition generate_certificates :: "env \<Rightarrow> host \<Rightarrow> unit io" where
  "generate_certificates env h =
     io_bind (perform env (Cmd h MkdirCerts)) (\<lambda>u. perform env (Cmd h OpensslReq))"

text \<open>The slices \<open>xs[:i]\<close> and \<open>xs[i:]\<close>; a negative index counts from the end.\<close>

definition slice_to :: "'a list \<Rightarrow> int \<Rightarrow> 'a list" where
  "slice_to xs i = (if i < 0 then take (nat (int (length xs) + i)) xs else take (nat i) xs)"

definition slice_from :: "'a list \<Rightarrow> int \<Rightarrow> 'a list" where
  "slice_from xs i = (if i < 0 then drop (nat (int (length xs) + i)) xs else drop (nat i) xs)"

text \<open>
  Lines 186-197, for one \<open>i\<close> of \<open>range(mid)\<close>: \<open>s1_hosts[i]\<close> and \<open>s2_hosts[i]\<close>
  raise \<open>IndexError\<close> out of range.
\<close>

definition start_client :: "env \<Rightarrow> host list \<Rightarrow> host list \<Rightarrow> real \<Rightarrow> nat \<Rightarrow> unit io" where
  "start_client env s1_hosts s2_hosts per_flow_rate i =
     (if i < length s1_hosts \<and> i < length s2_hosts
      then perform env (Cmd (s1_hosts ! i) (StartClient (s2_hosts ! i) per_flow_rate))
      else io_raise IndexError)"

text \<open>\<open>time.sleep(secs)\<close>: a negative length raises \<open>ValueError\<close>.\<close>

definition sleep :: "env \<Rightarrow> int \<Rightarrow> unit io" where
  "sleep env secs = (if secs < 0 then io_raise ValueError else perform env (Sleep secs))"

text \<open>
  Lines 211 and 219: \<open>((tx2[i] - tx1[i]) * 8) / 1e6 / duration\<close>, for the first
  counter \<open>count1\<close> and the second \<open>count2\<close>; the last division raises
  \<open>ZeroDivisionError\<close> when \<open>duration\<close> is 0.
\<close>

definition throughput_mbps :: "int \<Rightarrow> int \<Rightarrow> int \<Rightarrow> exn + real" where
  "throughput_mbps count1 count2 duration =
     truediv (real_of_int ((count2 - count1) * 8) / 1000000) (real_of_int duration)"

text \<open>
  The loops of lines 209-213 and 217-221 over the interfaces and their first
  counters: read the counter again, compute the throughput, store it in the dict
  \<open>switch_throughput\<close> under the interface's name.
\<close>

fun throughputs ::
  "(string \<Rightarrow> int io) \<Rightarrow> int \<Rightarrow> (string \<times> int) list \<Rightarrow> (string \<times> real) list
     \<Rightarrow> (string \<times> real) list io" where
  "throughputs reader duration [] switch_throughput = io_return switch_throughput"
| "throughputs reader duration ((device, count1) # rest) switch_throughput =
     io_bind (reader device) (\<lambda>count2.
     io_bind (io_lift (throughput_mbps count1 count2 duration)) (\<lambda>throughput.
     throughputs reader duration rest (AList.update device throughput switch_throughput)))"

text \<open>
  \<open>aggregate_metrics\<close> as a step of the run: the rows it computes are written to
  \<open>rtt.csv\<close> and \<open>cwnd.csv\<close>; when it fails, what it had written stays.
\<close>

definition write_opt :: "env \<Rightarrow> ('a \<Rightarrow> event) \<Rightarrow> 'a option \<Rightarrow> unit io" where
  "write_opt env ev rows = (case rows of None \<Rightarrow> io_return () | Some r \<Rightarrow> perform env (ev r))"

definition aggregate_step :: "env \<Rightarrow> unit io" where
  "aggregate_step env =
     (case aggregate_metrics (floating env) (json_loads env) (raw_metrics env) of
        Skipped warning \<Rightarrow> io_return ()
      | Saved rows crows \<Rightarrow>
          io_bind (perform env (WriteRtt rows)) (\<lambda>u. perform env (WriteCwnd crows))
      | Failed e rows crows \<Rightarrow>
          io_bind (write_opt env WriteRtt rows) (\<lambda>u.
          io_bind (write_opt env WriteCwnd crows) (\<lambda>u. io_raise e)))"

text \<open>
  \<open>save_switch_throughput\<close>: one row per interface of the dict, with
  \<open>round(throughput, 2)\<close>.
\<close>

definition save_switch_throughput :: "env \<Rightarrow> (string \<times> real) list \<Rightarrow> int \<Rightarrow> unit io" where
  "save_switch_throughput env switch_throughput duration =
     perform env
       (WriteSwitches
          (map (\<lambda>(interface, throughput).
                  (interface, float_round2 (floating env) throughput, duration))
             switch_throughput))"

text \<open>
  Lines 240-243: \<open>os.remove\<close> inside \<open>try ... except: pass\<close>. Whatever it raises is
  swallowed; a file that does not exist is not removed.
\<close>

definition remove_raw :: "env \<Rightarrow> unit io" where
  "remove_raw env tr =
     (case fault env (length tr) of
        Some e \<Rightarrow> (Inr (), tr @ [Fault e])
      | None \<Rightarrow>
          if raw_metrics env = Inl FileNotFoundError then (Inr (), tr)
          else (Inr (), tr @ [RemoveRaw]))"

text \<open>\<open>run_quic_experiments\<close> (lines 114-245).\<close>

definition run_quic_experiments ::
  "env \<Rightarrow> host list \<Rightarrow> int \<Rightarrow> string list \<Rightarrow> int \<Rightarrow> string list option \<Rightarrow> int
     \<Rightarrow> (string \<times> real) list io" where
  "run_quic_experiments env hosts number_of_hosts switch_interface duration other_switch
       bandwidth =
     io_bind (collect (get_bytes env) switch_interface) (\<lambda>tx1.
     io_bind (case other_switch of
                None \<Rightarrow> io_return []
              | Some other \<Rightarrow> collect (get_rx_bytes env) other) (\<lambda>rx1.
     let mid = number_of_hosts div 2;
         s1_hosts = slice_to hosts mid;
         s2_hosts = slice_from hosts mid
     in
     io_bind (for_each (generate_certificates env) s2_hosts) (\<lambda>u.
     io_bind (for_each (\<lambda>h. perform env (Cmd h StartServer)) s2_hosts) (\<lambda>u.
     io_bind (sleep env 2) (\<lambda>u.
     io_bind (perform env Makedirs) (\<lambda>u.
     io_bind (io_lift (truediv (real_of_int bandwidth) (real (length s1_hosts))))
       (\<lambda>per_flow_rate.
     io_bind (for_each (start_client env s1_hosts s2_hosts per_flow_rate) [0..<nat mid])
       (\<lambda>u.
     io_bind (sleep env (duration + 4)) (\<lambda>u.
     io_bind (throughputs (get_bytes env) duration (zip switch_interface tx1) [])
       (\<lambda>switch_throughput.
     io_bind (case other_switch of
                None \<Rightarrow> io_return switch_throughput
              | Some other \<Rightarrow>
                  throughputs (get_rx_bytes env) duration (zip other rx1) switch_throughput)
       (\<lambda>switch_throughput.
     io_bind (aggregate_step env) (\<lambda>u.
     io_bind (save_switch_throughput env switch_throughput duration) (\<lambda>u.
     io_bind (for_each (\<lambda>h. perform env (Cmd h PkillServer)) s2_hosts) (\<lambda>u.
     io_bind (for_each (\<lambda>h. perform env (Cmd h PkillClient)) hosts) (\<lambda>u.
     io_bind (remove_raw env) (\<lambda>u.
     io_return switch_throughput))))))))))))))))"

text \<open>
  \<open>main\<close> of the experiment runner, from the started network on (lines 132-186):
  the hosts \<open>h0 .. h(n-1)\<close> are looked up, the run is made inside
  \<open>try ... except KeyboardInterrupt ... except Exception\<close>, which catches every
  exception of type \<open>exn\<close>, and then the network is stopped. The topology names its
  monitored interfaces; only the multi-bottleneck one has receive-side interfaces.
\<close>

definition host_names :: "nat \<Rightarrow> host list" where
  "host_names n = map (\<lambda>i. ''h'' @ str_nat i) [0..<n]"

definition main_run ::
  "env \<Rightarrow> string list \<Rightarrow> string list option \<Rightarrow> nat \<Rightarrow> int \<Rightarrow> int \<Rightarrow> unit io" where
  "main_run env switch_throughput_node other_throughput_node n_hosts duration bw tr =
     (let (r, tr1) = run_quic_experiments env (host_names n_hosts) (int n_hosts)
                       switch_throughput_node duration other_throughput_node bw tr
      in perform env NetStop tr1)"

text \<open>
  The events of the phases of a run: the counter snapshot, the start of the
  receivers with the settle interval, the start of the senders, and the teardown.
\<close>

definition snapshot_events :: "string list \<Rightarrow> string list option \<Rightarrow> event list" where
  "snapshot_events si other =
     map GetBytes si @ (case other of None \<Rightarrow> [] | Some os \<Rightarrow> map GetRxBytes os)"

definition setup_events :: "host list \<Rightarrow> event list" where
  "setup_events s2_hosts =
     concat (map (\<lambda>h. [Cmd h MkdirCerts, Cmd h OpensslReq]) s2_hosts)
     @ map (\<lambda>h. Cmd h StartServer) s2_hosts @ [Sleep 2, Makedirs]"

definition client_events :: "host list \<Rightarrow> host list \<Rightarrow> real \<Rightarrow> nat \<Rightarrow> event list" where
  "client_events s1_hosts s2_hosts rate mid =
     map (\<lambda>i. Cmd (s1_hosts ! i) (StartClient (s2_hosts ! i) rate)) [0..<mid]"

definition teardown_events :: "host list \<Rightarrow> host list \<Rightarrow> event list" where
  "teardown_events s2_hosts hosts =
     map (\<lambda>h. Cmd h PkillServer) s2_hosts @ map (\<lambda>h. Cmd h PkillClient) hosts"

text \<open>
  The events of a run up to the end of the measurement window: the first snapshot,
  the receivers and the settle interval, the senders, and the sleep of
  \<open>duration + 4\<close> seconds.
\<close>

definition window_events ::
  "host list \<Rightarrow> int \<Rightarrow> string list \<Rightarrow> int \<Rightarrow> string list option \<Rightarrow> int \<Rightarrow> event list" where
  "window_events hosts n si d other bw =
     (let s1 = slice_to hosts (n div 2); s2 = slice_from hosts (n div 2)
      in snapshot_events si other @ setup_events s2
         @ client_events s1 s2 (real_of_int bw / real (length s1)) (nat (n div 2))
         @ [Sleep (d + 4)])"

text \<open>
  A run that stops early leaves a part of the events it would have produced: the
  trace \<open>tr'\<close> continues \<open>tr\<close> with the first \<open>k\<close> events of the script, and
  with the fault that stopped it, if one did.
\<close>

definition halted :: "event list \<Rightarrow> trace \<Rightarrow> trace \<Rightarrow> bool" where
  "halted script tr tr' \<longleftrightarrow>
     (\<exists>k. tr' = tr @ take k script \<or> (\<exists>e. tr' = tr @ take k script @ [Fault e]))"

text \<open>
  Three properties of a step, for composing the traces of the steps of a run: it
  \<open>emits\<close> the events \<open>evs\<close> when it returns (with a result satisfying \<open>Q\<close>), and
  halts within them when it raises; it \<open>reaches\<close> the end of a script, or halts
  within it; it only appends to the trace.
\<close>

definition emits :: "event list \<Rightarrow> ('a \<Rightarrow> bool) \<Rightarrow> 'a io \<Rightarrow> bool" where
  "emits evs Q m \<longleftrightarrow>
     (\<forall>tr r tr'. m tr = (r, tr') \<longrightarrow>
        (case r of Inr x \<Rightarrow> tr' = tr @ evs \<and> Q x | Inl e \<Rightarrow> halted evs tr tr'))"

definition reaches :: "event list \<Rightarrow> 'a io \<Rightarrow> bool" where
  "reaches script m \<longleftrightarrow>
     (\<forall>tr r tr'. m tr = (r, tr') \<longrightarrow>
        (\<exists>rest. tr' = tr @ script @ rest) \<or> halted script tr tr')"

definition appends_only :: "'a io \<Rightarrow> bool" where
  "appends_only m \<longleftrightarrow> (\<forall>tr r tr'. m tr = (r, tr') \<longrightarrow> (\<exists>rest. tr' = tr @ rest))"

text \<open>
  The surroundings of the example runs below: no fault, an interface \<open>s1-eth2\<close>
  whose transmit counter goes from 1000 to 6251000 bytes during the run, an interface
  \<open>s2-eth1\<close> whose receive counter goes from 500 to 3125500 bytes, and a metrics file
  of one line.
\<close>

definition example_env :: env where
  \<open>example_env =
     \<lparr>fault = (\<lambda>n. None),
      tx_bytes = (\<lambda>n dev. if dev = ''s1-eth2''
                              then Some (if n < 8 then 1000 else 6251000) else None),
      rx_bytes = (\<lambda>n dev. if dev = ''s2-eth1''
                              then Some (if n < 8 then 500 else 3125500) else None),
      raw_metrics = Inr [''{"time": 1, "rtt_ms": 20.5}'' @ [CHR 0x0A]],
      json_loads = example_loads,
      floating = example_floats\<rparr>\<close>

text \<open>The same, but the interface \<open>s1-eth2\<close> is gone when the senders have finished.\<close>

definition vanishing_env :: env where
  "vanishing_env =
     example_env\<lparr>tx_bytes := (\<lambda>n dev. if dev = ''s1-eth2'' \<and> n < 8 then Some 1000 else None)\<rparr>"

text \<open>
  The surroundings of a run on the dumbbell topology of \<open>n\<close> hosts: the interfaces
  that exist are those of the topology, all counters at 0, and no sender has written
  the metrics file.
\<close>

definition dumbbell_env :: "nat \<Rightarrow> env" where
  "dumbbell_env n =
     \<lparr>fault = (\<lambda>k. None),
      tx_bytes = (\<lambda>k dev. if dev \<in> set (interfaces (build n)) then Some 0 else None),
      rx_bytes = (\<lambda>k dev. if dev \<in> set (interfaces (build n)) then Some 0 else None),
      raw_metrics = Inl FileNotFoundError,
      json_loads = example_loads,
      floating = example_floats\<rparr>"

section \<open>Sweep orchestrator (exp\_parkinglot.py)\<close>

text \<open>The experiment parameters (lines 14-23).\<close>

definition BANDWIDTHS :: "int list" where
  "BANDWIDTHS = [10, 15, 20, 35]"

definition DELAYS :: "string list" where
  "DELAYS = [''1ms'', ''2ms'', ''5ms'', ''10ms'']"

definition LOSSES :: "int list" where
  "LOSSES = [0, 2, 5, 10]"

definition FIXED_BW :: int where
  "FIXED_BW = 15"

definition FIXED_DELAY :: string where
  "FIXED_DELAY = ''2ms''"

definition FIXED_LOSS :: int where
  "FIXED_LOSS = 2"

text \<open>A parameter point of a sweep, and the scalars extracted from a run's files.\<close>

record point =
  p_bw :: int
  p_delay :: string
  p_loss :: int

record summary =
  bottleneck1_throughput_mbps :: real
  bottleneck2_throughput_mbps :: real
  avg_rtt_ms :: real

text \<open>
  How the child process of a run ends, seen from \<open>subprocess.run\<close>: it exits with a
  status, or the call raises in the parent (\<open>KeyboardInterrupt\<close> when the user
  interrupts, an \<open>OSError\<close> when the program cannot be started or the child cannot
  be killed).
\<close>

datatype proc_result = Exited int | Raised exn

text \<open>
  The steps of the sweep process: the calls that print, start the child process, and
  read or write files. A sweep is known by the name of its directory, \<open>bw_vary\<close>,
  \<open>delay_vary\<close> or \<open>loss_vary\<close>; the output directory of a run is given by the
  sweep and the parameter point. In \<open>main\<close>: \<open>CheckRunner\<close> (line 247),
  \<open>PrintMissing\<close> (248-249), \<open>MakedirsResults\<close> (253), \<open>PrintBanner\<close> (256-267),
  \<open>PrintDone\<close> (279-288), \<open>PrintMainInterrupted\<close> (291). In a sweep:
  \<open>PrintHeader\<close> (110-113), \<open>MakedirsSummary\<close> (132), \<open>WriteSummary\<close> (134-138),
  \<open>PrintSaved\<close> (139). In \<open>run_experiment\<close>: \<open>PrintRunning\<close> (43),
  \<open>SubprocessRun\<close> (48), \<open>PrintCompleted\<close> (49-50), \<open>PrintFailed\<close> (53),
  \<open>PrintInterrupted\<close> (56). In \<open>extract_results\<close>: \<open>ReadResults\<close> (67-100),
  \<open>PrintExtractError\<close> (103).
\<close>

datatype step =
    CheckRunner
  | PrintMissing
  | MakedirsResults
  | PrintBanner
  | PrintHeader string
  | PrintRunning point
  | SubprocessRun string point
  | PrintCompleted
  | PrintFailed
  | PrintInterrupted
  | ReadResults string point
  | PrintExtractError
  | MakedirsSummary string
  | WriteSummary string "(point \<times> summary) list"
  | PrintSaved string
  | PrintDone
  | PrintMainInterrupted

text \<open>
  The trace of the sweep process records each step it takes: the step ran to its end,
  or an exception stopped it.
\<close>

datatype sweep_event = Ran step | Broke step exn

text \<open>
  What the sweep finds outside itself: whether the experiment runner is there;
  \<open>proc name p\<close>, how the child process of the run of point \<open>p\<close> in the sweep
  \<open>name\<close> ends; \<open>extracted name p\<close>, what reading that run's result files gives
  (the summary, \<open>None\<close> when the files are missing, or an exception); and, when the
  trace has \<open>n\<close> events, \<open>sweep_fault n\<close>, the exception that stops the next step,
  if any: a user interrupt can arrive at every step, not only while a child runs.
\<close>

record sweep_env =
  runner_exists :: bool
  proc :: "string \<Rightarrow> point \<Rightarrow> proc_result"
  extracted :: "string \<Rightarrow> point \<Rightarrow> exn + summary option"
  sweep_fault :: "nat \<Rightarrow> exn option"

text \<open>
  A part of the sweep takes the trace so far and returns its result, or the exception
  it raises, with the trace extended. \<open>try_except\<close> is \<open>try: m except: handler\<close>.
\<close>

type_synonym 'a sweep_io = "sweep_event list \<Rightarrow> (exn + 'a) \<times> sweep_event list"

definition sweep_return :: "'a \<Rightarrow> 'a sweep_io" where
  "sweep_return x tr = (Inr x, tr)"

definition sweep_raise :: "exn \<Rightarrow> 'a sweep_io" where
  "sweep_raise e tr = (Inl e, tr)"

definition sweep_bind :: "'a sweep_io \<Rightarrow> ('a \<Rightarrow> 'b sweep_io) \<Rightarrow> 'b sweep_io" where
  "sweep_bind m f tr = (case m tr of (Inl e, tr') \<Rightarrow> (Inl e, tr') | (Inr x, tr') \<Rightarrow> f x tr')"

definition try_except :: "'a sweep_io \<Rightarrow> (exn \<Rightarrow> 'a sweep_io) \<Rightarrow> 'a sweep_io" where
  "try_except m handler tr =
     (case m tr of (Inl e, tr') \<Rightarrow> handler e tr' | (Inr x, tr') \<Rightarrow> (Inr x, tr'))"

text \<open>A step that prints, creates a directory or writes a file.\<close>

definition attempt :: "sweep_env \<Rightarrow> step \<Rightarrow> unit sweep_io" where
  "attempt env s tr =
     (case sweep_fault env (length tr) of
        Some e \<Rightarrow> (Inl e, tr @ [Broke s e])
      | None \<Rightarrow> (Inr (), tr @ [Ran s]))"

text \<open>
  \<open>subprocess.run(cmd, check=True)\<close> (line 48): with \<open>check=True\<close> a status other
  than 0 raises \<open>CalledProcessError\<close>.
\<close>

definition subprocess_run :: "sweep_env \<Rightarrow> string \<Rightarrow> point \<Rightarrow> unit sweep_io" where
  "subprocess_run env name p tr =
     (case proc env name p of
        Exited status \<Rightarrow>
          if status = 0 then (Inr (), tr @ [Ran (SubprocessRun name p)])
          else (Inl CalledProcessError, tr @ [Broke (SubprocessRun name p) CalledProcessError])
      | Raised e \<Rightarrow> (Inl e, tr @ [Broke (SubprocessRun name p) e]))"

text \<open>
  \<open>run_experiment\<close> (lines 30-57). The run is announced before the \<open>try\<close>; inside
  it the child is run and its success is printed. \<open>CalledProcessError\<close> and
  \<open>KeyboardInterrupt\<close> raised inside the \<open>try\<close> are caught, and the run counts as
  failed; any other exception, and any exception of a handler, leaves the function.
\<close>

definition run_experiment :: "sweep_env \<Rightarrow> string \<Rightarrow> point \<Rightarrow> bool sweep_io" where
  "run_experiment env name p =
     sweep_bind (attempt env (PrintRunning p)) (\<lambda>u.
     try_except
       (sweep_bind (subprocess_run env name p) (\<lambda>u.
        sweep_bind (attempt env PrintCompleted) (\<lambda>u.
        sweep_return True)))
       (\<lambda>e. if e = CalledProcessError then
               sweep_bind (attempt env PrintFailed) (\<lambda>u. sweep_return False)
             else if e = KeyboardInterrupt then
               sweep_bind (attempt env PrintInterrupted) (\<lambda>u. sweep_return False)
             else sweep_raise e))"

text \<open>
  \<open>extract_results\<close> (lines 60-104) wraps its reading in
  \<open>try ... except Exception\<close>, which prints the error and returns \<open>None\<close>; a
  \<open>KeyboardInterrupt\<close> is not caught.
\<close>

definition read_results :: "sweep_env \<Rightarrow> string \<Rightarrow> point \<Rightarrow> summary option sweep_io" where
  "read_results env name p tr =
     (case extracted env name p of
        Inl e \<Rightarrow> (Inl e, tr @ [Broke (ReadResults name p) e])
      | Inr m \<Rightarrow> (Inr m, tr @ [Ran (ReadResults name p)]))"

definition extract_results :: "sweep_env \<Rightarrow> string \<Rightarrow> point \<Rightarrow> summary option sweep_io" where
  "extract_results env name p =
     try_except (read_results env name p)
       (\<lambda>e. if is_Exception e then
               sweep_bind (attempt env PrintExtractError) (\<lambda>u. sweep_return None)
             else sweep_raise e)"

text \<open>
  The loop of a sweep (lines 117-128, 152-163, 187-198) over the remaining points,
  with the rows collected so far.
\<close>

fun sweep_loop ::
  "sweep_env \<Rightarrow> string \<Rightarrow> point list \<Rightarrow> (point \<times> summary) list
     \<Rightarrow> (point \<times> summary) list sweep_io" where
  "sweep_loop env name [] results = sweep_return results"
| "sweep_loop env name (p # ps) results =
     sweep_bind (run_experiment env name p) (\<lambda>ok.
       if ok then
         sweep_bind (extract_results env name p) (\<lambda>metrics.
           case metrics of
             None \<Rightarrow> sweep_loop env name ps results
           | Some m \<Rightarrow> sweep_loop env name ps (results @ [(p, m)]))
       else sweep_loop env name ps results)"

text \<open>
  A sweep (lines 107-139, 142-174, 177-209): the header, the loop, then the summary
  file, which is opened in any case and gets its rows, with a message, only when
  there are results.
\<close>

definition run_varying :: "sweep_env \<Rightarrow> string \<Rightarrow> point list \<Rightarrow> unit sweep_io" where
  "run_varying env name points =
     sweep_bind (attempt env (PrintHeader name)) (\<lambda>u.
     sweep_bind (sweep_loop env name points []) (\<lambda>results.
     sweep_bind (attempt env (MakedirsSummary name)) (\<lambda>u.
     sweep_bind (attempt env (WriteSummary name results)) (\<lambda>u.
     if results \<noteq> [] then attempt env (PrintSaved name) else sweep_return ()))))"

definition bandwidth_points :: "point list" where
  "bandwidth_points =
     map (\<lambda>bw. \<lparr>p_bw = bw, p_delay = FIXED_DELAY, p_loss = FIXED_LOSS\<rparr>) BANDWIDTHS"

definition delay_points :: "point list" where
  "delay_points =
     map (\<lambda>delay. \<lparr>p_bw = FIXED_BW, p_delay = delay, p_loss = FIXED_LOSS\<rparr>) DELAYS"

definition loss_points :: "point list" where
  "loss_points =
     map (\<lambda>loss. \<lparr>p_bw = FIXED_BW, p_delay = FIXED_DELAY, p_loss = loss\<rparr>) LOSSES"

definition run_varying_bandwidth :: "sweep_env \<Rightarrow> unit sweep_io" where
  "run_varying_bandwidth env = run_varying env ''bw_vary'' bandwidth_points"

definition run_varying_delay :: "sweep_env \<Rightarrow> unit sweep_io" where
  "run_varying_delay env = run_varying env ''delay_vary'' delay_points"

definition run_varying_loss :: "sweep_env \<Rightarrow> unit sweep_io" where
  "run_varying_loss env = run_varying env ''loss_vary'' loss_points"

text \<open>The block of the \<open>try\<close> of \<open>main\<close> (lines 270-288).\<close>

definition sweeps :: "sweep_env \<Rightarrow> unit sweep_io" where
  "sweeps env =
     sweep_bind (run_varying_bandwidth env) (\<lambda>u.
     sweep_bind (run_varying_delay env) (\<lambda>u.
     sweep_bind (run_varying_loss env) (\<lambda>u.
     attempt env PrintDone)))"

text \<open>
  \<open>main\<close> (lines 243-292): without the experiment runner it exits with status 1;
  the three sweeps run inside \<open>try ... except KeyboardInterrupt\<close>, whose handler
  prints and exits with status 1; any other exception, and any exception outside the
  \<open>try\<close>, is not caught.
\<close>

datatype ending = Completed | SysExit int | Uncaught exn

definition sweep_main :: "sweep_env \<Rightarrow> ending \<times> sweep_event list" where
  "sweep_main env =
     (case attempt env CheckRunner [] of
        (Inl e, tr) \<Rightarrow> (Uncaught e, tr)
      | (Inr u, tr) \<Rightarrow>
          if \<not> runner_exists env then
            (case attempt env PrintMissing tr of
               (Inl e, tr1) \<Rightarrow> (Uncaught e, tr1)
             | (Inr u, tr1) \<Rightarrow> (SysExit 1, tr1))
          else
            (case sweep_bind (attempt env MakedirsResults) (\<lambda>u. attempt env PrintBanner) tr of
               (Inl e, tr1) \<Rightarrow> (Uncaught e, tr1)
             | (Inr u, tr1) \<Rightarrow>
                (case sweeps env tr1 of
                   (Inr u, tr2) \<Rightarrow> (Completed, tr2)
                 | (Inl e, tr2) \<Rightarrow>
                     if e = KeyboardInterrupt then
                       (case attempt env PrintMainInterrupted tr2 of
                          (Inl e', tr3) \<Rightarrow> (Uncaught e', tr3)
                        | (Inr u, tr3) \<Rightarrow> (SysExit 1, tr3))
                     else (Uncaught e, tr2))))"












text \<open>
  A third: the child process of the first run cannot be started (\<open>subprocess.run\<close>
  raises an \<open>OSError\<close>), and nobody interrupts.
\<close>

definition unstartable_first :: sweep_env where
  "unstartable_first =
     \<lparr>runner_exists = True,
      proc = (\<lambda>name p. if name = ''bw_vary'' \<and> p_bw p = 10 then Raised IOError else Exited 0),
      extracted = (\<lambda>name p. Inr (Some \<lparr>bottleneck1_throughput_mbps = 10,
                                          bottleneck2_throughput_mbps = 8, avg_rtt_ms = 20\<rparr>)),
      sweep_fault = (\<lambda>n. None)\<rparr>"
section \<open>Properties of the paced sender\<close>

lemma truediv_nonzero: "b \<noteq> 0 \<Longrightarrow> truediv a b = Inr (a / b)"
  by (simp add: truediv_def)

text \<open>
  Claim C3. For a positive target rate the inter-chunk sleep is
  \<open>chunk_size / (target_rate_mbps * 1e6 / 8)\<close>; at 8 Mbps and chunks of 1,000,000 bytes
  it is exactly one second; and the sleep after a chunk is
  \<open>max(0, inter_chunk_sleep - time_spent_sending)\<close>, which is never negative.
\<close>

theorem C3_pacing_sleep:
  "0 < rate \<Longrightarrow>
     sleep_time (Some rate) chunk_size
       = Inr (real_of_int chunk_size / (rate * 1000000 / 8))
     \<and> sleep_time (Some 8) 1000000 = Inr 1
     \<and> sleep_duration st spent = max 0 (st - spent)
     \<and> 0 \<le> sleep_duration st spent"
  by (simp add: sleep_time_def truediv_def sleep_duration_def)

theorem C3_pacing_sleep_witness:
  "(0::real) < 8 \<and> sleep_time (Some 8) 16384 = Inr (16384 / (8 * 1000000 / 8))
   \<and> sleep_duration 1 3 = 0"
proof -
  have h: "(0::real) < 8" by simp
  show ?thesis using h C3_pacing_sleep [OF h, of 16384 1 3] by simp
qed

text \<open>
  Claim C10. Called with target rate 0 or with no target rate, the sender does not
  fail: it paces at the default of 15 Mbps, with inter-chunk sleep
  \<open>chunk_size / (15e6 / 8)\<close>.
\<close>

theorem C10_default_pacing:
  "sleep_time None chunk_size = Inr (real_of_int chunk_size / (15 * 1000000 / 8))
   \<and> sleep_time (Some 0) chunk_size = Inr (real_of_int chunk_size / (15 * 1000000 / 8))
   \<and> sleep_time (Some 0) chunk_size = sleep_time (Some 15) chunk_size"
  by (simp add: sleep_time_def truediv_def)

section \<open>Properties of the aggregation\<close>

lemma entry_of_update: "entry_of (AList.update k v m) t = (if t = k then v else entry_of m t)"
  by (simp add: entry_of_def update_conv')

lemma entry_of_get_default: "entry_of (get_default t m) t' = entry_of m t'"
  by (auto simp: get_default_def entry_of_def update_conv' split: option.splits)

lemma entry_of_append_rtt:
  "entry_of (append_rtt t v m) t' =
     (if t' = t then (entry_of m t)\<lparr>rtt := rtt (entry_of m t) @ [v]\<rparr> else entry_of m t')"
  by (simp add: append_rtt_def entry_of_update)

lemma entry_of_append_cwnd:
  "entry_of (append_cwnd t v m) t' =
     (if t' = t then (entry_of m t)\<lparr>cwnd := cwnd (entry_of m t) @ [v]\<rparr> else entry_of m t')"
  by (simp add: append_cwnd_def entry_of_update)

lemmas entry_of_simps = entry_of_get_default entry_of_append_rtt entry_of_append_cwnd

lemma subscript_cases:
  "subscript data name = Inr v \<longleftrightarrow> (\<exists>kv. data = JObj kv \<and> map_of kv name = Some v)"
  by (cases data) (auto split: option.splits)

lemma line_body_rtt:
  "rtt (entry_of (snd (line_body loads line m)) t)
     = rtt (entry_of m t) @ at_key t (rtt_sample loads line)"
proof (cases "loads (strip line)")
  case (Inl e)
  then show ?thesis by (simp add: line_body_def rtt_sample_def at_key_def)
next
  case (Inr data)
  then show ?thesis
    by (cases data)
       (auto simp: line_body_def rtt_sample_def at_key_def entry_of_simps Let_def
             split: option.splits sum.splits)
qed

lemma line_body_cwnd:
  "cwnd (entry_of (snd (line_body loads line m)) t)
     = cwnd (entry_of m t) @ at_key t (cwnd_sample loads line)"
proof (cases "loads (strip line)")
  case (Inl e)
  then show ?thesis by (simp add: line_body_def cwnd_sample_def at_key_def)
next
  case (Inr data)
  then show ?thesis
    by (cases data)
       (auto simp: line_body_def cwnd_sample_def at_key_def entry_of_simps Let_def
             split: option.splits sum.splits)
qed

lemma read_lines_rtt:
  "read_lines loads lines m = Inr m' \<Longrightarrow>
     rtt (entry_of m' t) = rtt (entry_of m t) @ rtt_samples loads lines t"
proof (induction lines arbitrary: m)
  case Nil
  then show ?case by (simp add: rtt_samples_def)
next
  case (Cons line rest)
  obtain r m1 where lb: "line_body loads line m = (r, m1)"
    by (cases "line_body loads line m")
  from Cons.prems lb have "read_lines loads rest m1 = Inr m'"
    by (auto split: sum.splits if_splits)
  then have "rtt (entry_of m' t) = rtt (entry_of m1 t) @ rtt_samples loads rest t"
    by (rule Cons.IH)
  moreover have "rtt (entry_of m1 t) = rtt (entry_of m t) @ at_key t (rtt_sample loads line)"
    using line_body_rtt [of loads line m t] lb by simp
  ultimately show ?case by (simp add: rtt_samples_def)
qed

lemma read_lines_cwnd:
  "read_lines loads lines m = Inr m' \<Longrightarrow>
     cwnd (entry_of m' t) = cwnd (entry_of m t) @ cwnd_samples loads lines t"
proof (induction lines arbitrary: m)
  case Nil
  then show ?case by (simp add: cwnd_samples_def)
next
  case (Cons line rest)
  obtain r m1 where lb: "line_body loads line m = (r, m1)"
    by (cases "line_body loads line m")
  from Cons.prems lb have "read_lines loads rest m1 = Inr m'"
    by (auto split: sum.splits if_splits)
  then have "cwnd (entry_of m' t) = cwnd (entry_of m1 t) @ cwnd_samples loads rest t"
    by (rule Cons.IH)
  moreover have "cwnd (entry_of m1 t) = cwnd (entry_of m t) @ at_key t (cwnd_sample loads line)"
    using line_body_cwnd [of loads line m t] lb by simp
  ultimately show ?case by (simp add: cwnd_samples_def)
qed


lemma keys_get_default: "distinct (map fst m) \<Longrightarrow> distinct (map fst (get_default t m))"
  by (simp add: get_default_def distinct_update split: option.splits)

lemma keys_append_rtt: "distinct (map fst m) \<Longrightarrow> distinct (map fst (append_rtt t v m))"
  by (simp add: append_rtt_def distinct_update)

lemma keys_append_cwnd: "distinct (map fst m) \<Longrightarrow> distinct (map fst (append_cwnd t v m))"
  by (simp add: append_cwnd_def distinct_update)

lemma line_body_distinct:
  "distinct (map fst m) \<Longrightarrow> distinct (map fst (snd (line_body loads line m)))"
  by (auto simp: line_body_def Let_def keys_get_default keys_append_rtt keys_append_cwnd
           split: option.splits sum.splits)

lemma read_lines_distinct:
  "read_lines loads lines m = Inr m' \<Longrightarrow> distinct (map fst m) \<Longrightarrow> distinct (map fst m')"
proof (induction lines arbitrary: m)
  case Nil
  then show ?case by simp
next
  case (Cons line rest)
  obtain r m1 where lb: "line_body loads line m = (r, m1)"
    by (cases "line_body loads line m")
  from Cons.prems(1) lb have "read_lines loads rest m1 = Inr m'"
    by (auto split: sum.splits if_splits)
  moreover have "distinct (map fst m1)"
    using line_body_distinct [OF Cons.prems(2), of loads line] lb by simp
  ultimately show ?case by (rule Cons.IH)
qed

lemma KNum_num_val: "is_KNum k \<Longrightarrow> KNum (num_val k) = k"
  by (cases k) simp_all

lemma KStr_str_val: "is_KStr k \<Longrightarrow> KStr (str_val k) = k"
  by (cases k) simp_all

lemma all_KNum_set: "list_all is_KNum ks \<Longrightarrow> KNum ` num_val ` set ks = set ks"
  by (force simp: list_all_iff KNum_num_val image_iff)

lemma all_KStr_set: "list_all is_KStr ks \<Longrightarrow> KStr ` str_val ` set ks = set ks"
  by (force simp: list_all_iff KStr_str_val image_iff)

lemma all_KNum_inj: "list_all is_KNum ks \<Longrightarrow> inj_on num_val (set ks)"
  by (metis (no_types, lifting) KNum_num_val inj_onI list_all_iff)

lemma all_KStr_inj: "list_all is_KStr ks \<Longrightarrow> inj_on str_val (set ks)"
  by (metis (no_types, lifting) KStr_str_val inj_onI list_all_iff)

lemma sorted_keys_set: "sorted_keys ks = Inr ts \<Longrightarrow> set ts = set ks"
  by (auto simp: sorted_keys_def all_KNum_set all_KStr_set split: if_splits)

lemma sorted_keys_distinct: "sorted_keys ks = Inr ts \<Longrightarrow> distinct ks \<Longrightarrow> distinct ts"
  by (auto simp: sorted_keys_def distinct_map inj_on_def split: if_splits
           dest: inj_onD [OF all_KNum_inj] inj_onD [OF all_KStr_inj])

lemma exact_sum_from_nums:
  "exact_sum_from acc vs = Inr s \<Longrightarrow> \<exists>xs. map num_of vs = map Inr xs \<and> s = acc + sum_list xs"
proof (induction vs arbitrary: acc)
  case Nil
  then show ?case by simp
next
  case (Cons v vs)
  from Cons.prems obtain r where r: "num_of v = Inr r" and rest: "exact_sum_from (acc + r) vs = Inr s"
    by (auto split: sum.splits)
  from Cons.IH [OF rest] obtain xs where "map num_of vs = map Inr xs" "s = acc + r + sum_list xs"
    by blast
  with r have "map num_of (v # vs) = map Inr (r # xs) \<and> s = acc + sum_list (r # xs)" by simp
  then show ?case by blast
qed

lemma exact_sum_nums:
  "exact_sum vs = Inr s \<Longrightarrow> \<exists>xs. map num_of vs = map Inr xs \<and> s = sum_list xs"
  using exact_sum_from_nums [of 0 vs s] by (simp add: exact_sum_def)

text \<open>With the arithmetic of the examples, the mean is the arithmetic mean.\<close>

lemma float_mean_exact:
  assumes "float_mean example_floats vs = Inr a" and "vs \<noteq> []"
  shows "is_mean_of a vs"
proof -
  from assms(1) obtain s where s: "exact_sum vs = Inr s" and d: "truediv s (real (length vs)) = Inr a"
    by (auto simp: float_mean_def example_floats_def split: sum.splits)
  from exact_sum_nums [OF s] obtain xs
    where xs: "map num_of vs = map Inr xs" "s = sum_list xs" by blast
  from xs(1) have len: "length vs = length xs" by (metis length_map)
  from assms(2) d have "a = s / real (length vs)" by (simp add: truediv_def)
  with xs len show ?thesis unfolding is_mean_of_def by auto
qed

lemma rtt_rows_keys:
  "rtt_rows fp m ts = (None, rows) \<Longrightarrow>
     map fst rows = filter (\<lambda>t. rtt (entry_of m t) \<noteq> []) ts"
  by (induction ts arbitrary: rows) (auto split: sum.splits prod.splits if_splits)

lemma rtt_rows_values:
  "rtt_rows fp m ts = (ex, rows) \<Longrightarrow> (t, v) \<in> set rows \<Longrightarrow>
     \<exists>a. float_mean fp (rtt (entry_of m t)) = Inr a \<and> v = float_round2 fp a"
proof (induction ts arbitrary: rows ex)
  case Nil
  then show ?case by simp
next
  case (Cons u us)
  show ?case
  proof (cases "rtt (entry_of m u) = []")
    case True
    with Cons.prems have "rtt_rows fp m us = (ex, rows)" by simp
    from Cons.IH [OF this Cons.prems(2)] show ?thesis .
  next
    case False
    show ?thesis
    proof (cases "float_mean fp (rtt (entry_of m u))")
      case (Inl e)
      with False Cons.prems show ?thesis by simp
    next
      case (Inr a)
      obtain ex' rows' where r: "rtt_rows fp m us = (ex', rows')" by (cases "rtt_rows fp m us")
      with False Inr Cons.prems(1)
      have rows: "rows = (u, float_round2 fp a) # rows'" by simp
      from Cons.prems(2) rows consider "(t, v) = (u, float_round2 fp a)" | "(t, v) \<in> set rows'"
        by auto
      then show ?thesis
      proof cases
        case 1
        with Inr show ?thesis by auto
      next
        case 2
        from Cons.IH [OF r 2] show ?thesis .
      qed
    qed
  qed
qed

lemma aggregate_Saved_parts:
  assumes "aggregate_metrics fp loads (Inr lines) = Saved rows crows"
  obtains m ts where "read_lines loads lines [] = Inr m" and "sorted_keys (map fst m) = Inr ts"
    and "rtt_rows fp m ts = (None, rows)" and "cwnd_rows fp m ts = (None, crows)"
  using assms
  by (auto simp: aggregate_metrics_def read_file_def
           split: sum.splits prod.splits option.splits if_splits)

lemma aggregate_Saved_rtt:
  assumes "aggregate_metrics fp loads (Inr lines) = Saved rows crows"
  shows "distinct (map fst rows)"
    and "rtt_samples loads lines t = [] \<Longrightarrow> t \<notin> fst ` set rows"
    and "rtt_samples loads lines t \<noteq> [] \<Longrightarrow>
           \<exists>a. float_mean fp (rtt_samples loads lines t) = Inr a
                \<and> (t, float_round2 fp a) \<in> set rows"
proof -
  from aggregate_Saved_parts [OF assms] obtain m ts where
    m: "read_lines loads lines [] = Inr m" and
    ts: "sorted_keys (map fst m) = Inr ts" and
    rr: "rtt_rows fp m ts = (None, rows)"
    by metis
  have sam: "rtt (entry_of m u) = rtt_samples loads lines u" for u
    using read_lines_rtt [OF m, of u] by (simp add: entry_of_def)
  have "distinct (map fst m)" using read_lines_distinct [OF m] by simp
  then have dts: "distinct ts" by (rule sorted_keys_distinct [OF ts])
  have keys: "map fst rows = filter (\<lambda>u. rtt_samples loads lines u \<noteq> []) ts"
    using rtt_rows_keys [OF rr] by (simp add: sam)
  show "distinct (map fst rows)" using dts keys by simp
  show "t \<notin> fst ` set rows" if "rtt_samples loads lines t = []"
  proof -
    have "t \<notin> set (map fst rows)" using that keys by simp
    then show ?thesis by simp
  qed
  show "\<exists>a. float_mean fp (rtt_samples loads lines t) = Inr a
             \<and> (t, float_round2 fp a) \<in> set rows"
    if ne: "rtt_samples loads lines t \<noteq> []"
  proof -
    have "t \<in> set (map fst m)"
    proof (rule ccontr)
      assume "t \<notin> set (map fst m)"
      then have "map_of m t = None" by (simp add: map_of_eq_None_iff)
      then have "rtt (entry_of m t) = []" by (simp add: entry_of_def)
      with ne sam show False by simp
    qed
    then have "t \<in> set ts" using sorted_keys_set [OF ts] by simp
    with ne keys have "t \<in> set (map fst rows)" by simp
    then obtain v where v: "(t, v) \<in> set rows" by auto
    from rtt_rows_values [OF rr v] obtain a
      where "float_mean fp (rtt (entry_of m t)) = Inr a" "v = float_round2 fp a" by blast
    with v sam show ?thesis by auto
  qed
qed

lemma read_lines_skipped:
  "loads (strip g) = Inl e \<Longrightarrow> e = JSONDecodeError \<or> e = KeyError \<Longrightarrow>
     read_lines loads (xs @ g # ys) m = read_lines loads (xs @ ys) m"
proof (induction xs arbitrary: m)
  case Nil
  then show ?case by (auto simp: line_body_def)
next
  case (Cons x xs)
  then show ?case by (simp split: prod.splits sum.splits)
qed

lemma read_lines_raise:
  "read_lines loads xs m = Inr m' \<Longrightarrow> loads (strip g) = Inl e \<Longrightarrow>
     e \<noteq> JSONDecodeError \<Longrightarrow> e \<noteq> KeyError \<Longrightarrow>
     read_lines loads (xs @ g # ys) m = Inl e"
proof (induction xs arbitrary: m)
  case Nil
  then show ?case by (simp add: line_body_def)
next
  case (Cons x xs)
  obtain r m1 where lb: "line_body loads x m = (r, m1)" by (cases "line_body loads x m")
  from Cons.prems(1) lb have rest: "read_lines loads xs m1 = Inr m'"
    by (auto split: sum.splits if_splits)
  from Cons.IH [OF rest Cons.prems(2,3,4)]
  have ih: "read_lines loads (xs @ g # ys) m1 = Inl e" .
  from Cons.prems(1) lb have "(\<exists>u. r = Inr u) \<or> r = Inl JSONDecodeError \<or> r = Inl KeyError"
    by (auto split: sum.splits if_splits)
  with lb ih show ?case by auto
qed

lemma list_all_replicate: "list_all P (replicate n x) \<longleftrightarrow> n = 0 \<or> P x"
  by (auto simp: list_all_iff)

lemma strip_replicate: "\<not> is_space c \<Longrightarrow> strip (replicate n c) = replicate n c"
  by (simp add: strip_def)

lemmas agg_eval = aggregate_metrics_def read_file_def example_loads_def line_body_def strip_def
  is_space_def get_default_def append_rtt_def append_cwnd_def entry_of_def sorted_keys_def
  float_mean_def example_floats_def exact_sum_def truediv_def decimal_round2_def
  round_half_even_def py_int_def

lemma rtt_rows_keys_prefix:
  "rtt_rows fp m ts = (ex, rows) \<Longrightarrow>
     \<exists>k. map fst rows = filter (\<lambda>t. rtt (entry_of m t) \<noteq> []) (take k ts)"
proof (induction ts arbitrary: rows ex)
  case Nil
  then show ?case by simp
next
  case (Cons t ts)
  show ?case
  proof (cases "rtt (entry_of m t) = []")
    case True
    with Cons.prems have "rtt_rows fp m ts = (ex, rows)" by simp
    from Cons.IH [OF this] obtain k
      where "map fst rows = filter (\<lambda>t. rtt (entry_of m t) \<noteq> []) (take k ts)" by blast
    with True have "map fst rows = filter (\<lambda>t. rtt (entry_of m t) \<noteq> []) (take (Suc k) (t # ts))"
      by simp
    then show ?thesis by blast
  next
    case False
    show ?thesis
    proof (cases "float_mean fp (rtt (entry_of m t))")
      case (Inl e)
      with False Cons.prems have "rows = []" by simp
      then have "map fst rows = filter (\<lambda>t. rtt (entry_of m t) \<noteq> []) (take 0 (t # ts))"
        by simp
      then show ?thesis by blast
    next
      case (Inr a)
      obtain ex' rows' where r: "rtt_rows fp m ts = (ex', rows')" by (cases "rtt_rows fp m ts")
      with False Inr Cons.prems have rows: "map fst rows = t # map fst rows'"
        by auto
      from Cons.IH [OF r] obtain k
        where "map fst rows' = filter (\<lambda>t. rtt (entry_of m t) \<noteq> []) (take k ts)" by blast
      with False rows
      have "map fst rows = filter (\<lambda>t. rtt (entry_of m t) \<noteq> []) (take (Suc k) (t # ts))"
        by simp
      then show ?thesis by blast
    qed
  qed
qed

lemma aggregate_rtt_csv:
  assumes "rtt_csv (aggregate_metrics fp loads (Inr lines)) = Some rows"
  shows "distinct (map fst rows)"
    and "(t, v) \<in> set rows \<Longrightarrow>
           rtt_samples loads lines t \<noteq> []
           \<and> (\<exists>a. float_mean fp (rtt_samples loads lines t) = Inr a \<and> v = float_round2 fp a)"
proof -
  have "distinct (map fst rows) \<and> ((t, v) \<in> set rows \<longrightarrow>
           rtt_samples loads lines t \<noteq> []
           \<and> (\<exists>a. float_mean fp (rtt_samples loads lines t) = Inr a \<and> v = float_round2 fp a))"
  proof (cases "read_lines loads lines []")
    case (Inl e)
    with assms show ?thesis
      by (simp add: aggregate_metrics_def read_file_def split: if_splits)
  next
    case (Inr m)
    show ?thesis
    proof (cases "sorted_keys (map fst m)")
      case (Inl e)
      with Inr assms show ?thesis by (simp add: aggregate_metrics_def read_file_def)
    next
      case ts: (Inr ts)
      obtain ex rr where rr: "rtt_rows fp m ts = (ex, rr)" by (cases "rtt_rows fp m ts")
      from assms Inr ts rr have rows: "rows = rr"
        by (auto simp: aggregate_metrics_def read_file_def split: option.splits prod.splits)
      have sam: "rtt (entry_of m u) = rtt_samples loads lines u" for u
        using read_lines_rtt [OF Inr, of u] by (simp add: entry_of_def)
      have "distinct (map fst m)" using read_lines_distinct [OF Inr] by simp
      then have dts: "distinct ts" by (rule sorted_keys_distinct [OF ts])
      from rtt_rows_keys_prefix [OF rr] obtain k where
        keys: "map fst rr = filter (\<lambda>u. rtt_samples loads lines u \<noteq> []) (take k ts)"
        by (auto simp: sam)
      have d: "distinct (map fst rows)" unfolding rows keys using dts by simp
      have "rtt_samples loads lines t \<noteq> []
           \<and> (\<exists>a. float_mean fp (rtt_samples loads lines t) = Inr a \<and> v = float_round2 fp a)"
        if tv: "(t, v) \<in> set rows"
      proof -
        from tv have "t \<in> set (map fst rr)" unfolding rows by force
        with keys have ne: "rtt_samples loads lines t \<noteq> []" by simp
        from rtt_rows_values [OF rr] tv rows sam
        have "\<exists>a. float_mean fp (rtt_samples loads lines t) = Inr a \<and> v = float_round2 fp a"
          by simp
        with ne show ?thesis by simp
      qed
      with d show ?thesis by blast
    qed
  qed
  then show "distinct (map fst rows)"
    and "(t, v) \<in> set rows \<Longrightarrow>
           rtt_samples loads lines t \<noteq> []
           \<and> (\<exists>a. float_mean fp (rtt_samples loads lines t) = Inr a \<and> v = float_round2 fp a)"
    by blast+
qed

text \<open>
  Claim C4, as amended. For every raw-metrics input and every floating-point
  arithmetic of the interpreter, \<open>rtt.csv\<close> has at most one row for a second \<open>t\<close>;
  the value of every row written is \<open>round(sum(samples) / len(samples), 2)\<close> for the
  list of all the \<open>rtt_ms\<close> samples of its second: their mean as the interpreter
  computes it, rounded to two decimal places; a second with no \<open>rtt_ms\<close> sample has no
  row; and when the aggregation runs to its end, every second with samples has its
  row.
\<close>

theorem C4_rtt_row_is_rounded_mean:
  "rtt_csv (aggregate_metrics fp loads (Inr lines)) = Some rows \<Longrightarrow>
     distinct (map fst rows)
     \<and> ((t, v) \<in> set rows \<longrightarrow>
          rtt_samples loads lines t \<noteq> []
          \<and> (\<exists>a. float_mean fp (rtt_samples loads lines t) = Inr a \<and> v = float_round2 fp a))
     \<and> (rtt_samples loads lines t = [] \<longrightarrow> t \<notin> fst ` set rows)
     \<and> (aggregate_metrics fp loads (Inr lines) = Saved rows crows
          \<and> rtt_samples loads lines t \<noteq> [] \<longrightarrow>
          (\<exists>a. float_mean fp (rtt_samples loads lines t) = Inr a
               \<and> (t, float_round2 fp a) \<in> set rows))"
proof -
  assume a: "rtt_csv (aggregate_metrics fp loads (Inr lines)) = Some rows"
  have 1: "distinct (map fst rows)" by (rule aggregate_rtt_csv(1) [OF a])
  have 2: "(t, v) \<in> set rows \<longrightarrow>
          rtt_samples loads lines t \<noteq> []
          \<and> (\<exists>a. float_mean fp (rtt_samples loads lines t) = Inr a \<and> v = float_round2 fp a)"
    using aggregate_rtt_csv(2) [OF a, of t v] by blast
  have 3: "rtt_samples loads lines t = [] \<longrightarrow> t \<notin> fst ` set rows"
    using aggregate_rtt_csv(2) [OF a, of t] by force
  have 4: "aggregate_metrics fp loads (Inr lines) = Saved rows crows
          \<and> rtt_samples loads lines t \<noteq> [] \<longrightarrow>
          (\<exists>a. float_mean fp (rtt_samples loads lines t) = Inr a
               \<and> (t, float_round2 fp a) \<in> set rows)"
    using aggregate_Saved_rtt(3) [of fp loads lines rows crows t] by blast
  from 1 2 3 4 show ?thesis by blast
qed

theorem C4_rtt_row_is_rounded_mean_witness:
  \<open>rtt_csv (aggregate_metrics example_floats example_loads
      (Inr [''{"time": 1, "rtt_ms": 20.5}'', ''{"time": 2}'', ''{"time": 1, "rtt_ms": 21.25}'']))
     = Some [(KNum 1, 2088 / 100)]
   \<and> rtt_samples example_loads
        [''{"time": 1, "rtt_ms": 20.5}'', ''{"time": 2}'', ''{"time": 1, "rtt_ms": 21.25}'']
        (KNum 2) = []
   \<and> KNum 2 \<notin> fst ` set [(KNum 1, 2088 / 100 :: real)]
   \<and> (\<exists>a. float_mean example_floats [JNum (205 / 10), JNum (2125 / 100)] = Inr a
          \<and> 2088 / 100 = float_round2 example_floats a)
   \<and> (\<exists>a. float_mean example_floats [JNum (205 / 10), JNum (2125 / 100)] = Inr a
          \<and> (KNum 1, float_round2 example_floats a) \<in> set [(KNum 1, 2088 / 100)])\<close>
proof -
  let ?f = \<open>[''{"time": 1, "rtt_ms": 20.5}'', ''{"time": 2}'', ''{"time": 1, "rtt_ms": 21.25}'']\<close>
  let ?rows = "[(KNum 1, 2088 / 100 :: real)]"
  have a: "aggregate_metrics example_floats example_loads (Inr ?f) = Saved ?rows []"
    by (simp add: agg_eval)
  then have csv: "rtt_csv (aggregate_metrics example_floats example_loads (Inr ?f)) = Some ?rows"
    by simp
  have b: "rtt_samples example_loads ?f (KNum 1) = [JNum (205 / 10), JNum (2125 / 100)]"
    by (simp add: rtt_samples_def rtt_sample_def at_key_def example_loads_def strip_def
        is_space_def)
  have c: "rtt_samples example_loads ?f (KNum 2) = []"
    by (simp add: rtt_samples_def rtt_sample_def at_key_def example_loads_def strip_def
        is_space_def)
  note one = C4_rtt_row_is_rounded_mean [OF csv, of "KNum 1" "2088 / 100" "[]"]
  note two = C4_rtt_row_is_rounded_mean [OF csv, of "KNum 2" 0 "[]"]
  have mem: "(KNum 1, 2088 / 100) \<in> set ?rows" by simp
  have 1: "\<exists>a. float_mean example_floats [JNum (205 / 10), JNum (2125 / 100)] = Inr a
          \<and> 2088 / 100 = float_round2 example_floats a"
    using one [THEN conjunct2, THEN conjunct1, THEN mp, OF mem] b by simp
  have 2: "KNum 2 \<notin> fst ` set ?rows"
    using two [THEN conjunct2, THEN conjunct2, THEN conjunct1, THEN mp, OF c] .
  have ne: "aggregate_metrics example_floats example_loads (Inr ?f) = Saved ?rows []
     \<and> rtt_samples example_loads ?f (KNum 1) \<noteq> []"
    using a b by simp
  have 3: "\<exists>a. float_mean example_floats [JNum (205 / 10), JNum (2125 / 100)] = Inr a
          \<and> (KNum 1, float_round2 example_floats a) \<in> set ?rows"
    using one [THEN conjunct2, THEN conjunct2, THEN conjunct2, THEN mp, OF ne] b by simp
  from csv c 1 2 3 show ?thesis by blast
qed

text \<open>
  Claim C4 as stated fails: the two samples 20.5 and 21.25 of second 1 give the row
  20.88, which is not their arithmetic mean 20.875.
\<close>

theorem C4_written_value_not_mean:
  \<open>aggregate_metrics example_floats example_loads
      (Inr [''{"time": 1, "rtt_ms": 20.5}'', ''{"time": 1, "rtt_ms": 21.25}''])
     = Saved [(KNum 1, 2088 / 100)] []
   \<and> rtt_samples example_loads
        [''{"time": 1, "rtt_ms": 20.5}'', ''{"time": 1, "rtt_ms": 21.25}''] (KNum 1)
       = [JNum (205 / 10), JNum (2125 / 100)]
   \<and> is_mean_of (20875 / 1000) [JNum (205 / 10), JNum (2125 / 100)]
   \<and> \<not> is_mean_of (2088 / 100) [JNum (205 / 10), JNum (2125 / 100)]\<close>
proof -
  have a: \<open>aggregate_metrics example_floats example_loads
      (Inr [''{"time": 1, "rtt_ms": 20.5}'', ''{"time": 1, "rtt_ms": 21.25}''])
     = Saved [(KNum 1, 2088 / 100)] []\<close>
    by (simp add: agg_eval)
  have b: \<open>rtt_samples example_loads
        [''{"time": 1, "rtt_ms": 20.5}'', ''{"time": 1, "rtt_ms": 21.25}''] (KNum 1)
       = [JNum (205 / 10), JNum (2125 / 100)]\<close>
    by (simp add: rtt_samples_def rtt_sample_def at_key_def example_loads_def strip_def is_space_def)
  have xs: "xs = [205 / 10, 2125 / 100]"
    if "map num_of [JNum (205 / 10), JNum (2125 / 100)] = map Inr xs" for xs
    using that by (auto simp: map_eq_Cons_conv)
  have c: "is_mean_of (20875 / 1000) [JNum (205 / 10), JNum (2125 / 100)]"
    unfolding is_mean_of_def by (rule exI [of _ "[205 / 10, 2125 / 100]"]) simp
  have d: "\<not> is_mean_of (2088 / 100) [JNum (205 / 10), JNum (2125 / 100)]"
  proof
    assume "is_mean_of (2088 / 100) [JNum (205 / 10), JNum (2125 / 100)]"
    then obtain ys where ys: "map num_of [JNum (205 / 10), JNum (2125 / 100)] = map Inr ys"
      and m: "(2088 / 100 :: real) = sum_list ys / real (length ys)"
      unfolding is_mean_of_def by blast
    from xs [OF ys] m show False by simp
  qed
  from a b c d show ?thesis by blast
qed


text \<open>
  Claim C9, as far as it holds. A line that \<open>json.loads\<close> rejects with
  \<open>JSONDecodeError\<close> leaves the aggregation unchanged: the outcome, and so
  \<open>rtt.csv\<close> and \<open>cwnd.csv\<close>, is the one of the file without that line. A missing
  metrics file is skipped with a warning, and nothing is raised. But a line on which
  \<open>json.loads\<close> raises an exception that the handlers do not name is not skipped:
  the exception leaves the aggregation, and neither file is written.
\<close>

theorem C9_undecodable_lines_skipped:
  "(loads (strip g) = Inl JSONDecodeError \<longrightarrow>
      aggregate_metrics fp loads (Inr (xs @ g # ys)) = aggregate_metrics fp loads (Inr (xs @ ys)))
   \<and> (loads (strip g) = Inl e \<and> e \<noteq> JSONDecodeError \<and> e \<noteq> KeyError
        \<and> e \<noteq> FileNotFoundError \<and> e \<noteq> IOError \<and> read_lines loads xs [] = Inr m \<longrightarrow>
      aggregate_metrics fp loads (Inr (xs @ g # ys)) = Failed e None None)
   \<and> aggregate_metrics fp loads (Inl FileNotFoundError)
       = Skipped ''*** Warning: Metrics file not found''"
proof (intro conjI impI)
  assume "loads (strip g) = Inl JSONDecodeError"
  then show "aggregate_metrics fp loads (Inr (xs @ g # ys))
               = aggregate_metrics fp loads (Inr (xs @ ys))"
    by (simp add: aggregate_metrics_def read_file_def read_lines_skipped)
next
  assume a: "loads (strip g) = Inl e \<and> e \<noteq> JSONDecodeError \<and> e \<noteq> KeyError
        \<and> e \<noteq> FileNotFoundError \<and> e \<noteq> IOError \<and> read_lines loads xs [] = Inr m"
  then have "read_lines loads (xs @ g # ys) [] = Inl e"
    using read_lines_raise [of loads xs "[]" m g e ys] by blast
  with a show "aggregate_metrics fp loads (Inr (xs @ g # ys)) = Failed e None None"
    by (simp add: aggregate_metrics_def read_file_def)
next
  show "aggregate_metrics fp loads (Inl FileNotFoundError)
          = Skipped ''*** Warning: Metrics file not found''"
    by (simp add: aggregate_metrics_def read_file_def)
qed

theorem C9_undecodable_lines_skipped_witness:
  \<open>example_loads (strip ''not json at all'') = Inl JSONDecodeError
   \<and> aggregate_metrics example_floats example_loads
        (Inr ([''{"time": 1, "rtt_ms": 20.5}''] @ ''not json at all''
                # [''{"time": 1, "rtt_ms": 21.25}'']))
      = Saved [(KNum 1, 2088 / 100)] []
   \<and> example_loads (strip (replicate 100000 (CHR ''[''))) = Inl RecursionError
   \<and> aggregate_metrics example_floats example_loads
        (Inr ([''{"time": 1, "rtt_ms": 20.5}''] @ replicate 100000 (CHR ''['')
                # [''{"time": 1, "rtt_ms": 21.25}'']))
      = Failed RecursionError None None\<close>
proof -
  let ?xs = \<open>[''{"time": 1, "rtt_ms": 20.5}'']\<close>
  let ?ys = \<open>[''{"time": 1, "rtt_ms": 21.25}'']\<close>
  let ?m = "[(KNum 1, \<lparr>rtt = [JNum (205 / 10)], cwnd = []\<rparr>)]"
  have h: \<open>example_loads (strip ''not json at all'') = Inl JSONDecodeError\<close>
    by (simp add: example_loads_def strip_def is_space_def)
  have d: "example_loads (strip (replicate 100000 (CHR ''[''))) = Inl RecursionError"
    by (simp add: strip_replicate is_space_def example_loads_def list_all_replicate)
  have r: "read_lines example_loads ?xs [] = Inr ?m"
    by (simp add: agg_eval)
  have s: "aggregate_metrics example_floats example_loads (Inr (?xs @ ?ys))
             = Saved [(KNum 1, 2088 / 100)] []"
    by (simp add: agg_eval)
  note skip = C9_undecodable_lines_skipped
    [of example_loads \<open>''not json at all''\<close> example_floats ?xs ?ys JSONDecodeError "[]"]
  note stop = C9_undecodable_lines_skipped
    [of example_loads "replicate 100000 (CHR ''['')" example_floats ?xs ?ys RecursionError ?m]
  have 1: "aggregate_metrics example_floats example_loads (Inr (?xs @ ''not json at all'' # ?ys))
             = Saved [(KNum 1, 2088 / 100)] []"
    using skip [THEN conjunct1, THEN mp, OF h] s by simp
  have pre: "example_loads (strip (replicate 100000 (CHR ''[''))) = Inl RecursionError
       \<and> RecursionError \<noteq> JSONDecodeError \<and> RecursionError \<noteq> KeyError
       \<and> RecursionError \<noteq> FileNotFoundError \<and> RecursionError \<noteq> IOError
       \<and> read_lines example_loads ?xs [] = Inr ?m"
    using d r by simp
  have 2: "aggregate_metrics example_floats example_loads
             (Inr (?xs @ replicate 100000 (CHR ''['') # ?ys)) = Failed RecursionError None None"
    using stop [THEN conjunct2, THEN conjunct1, THEN mp, OF pre] .
  from h 1 d 2 show ?thesis by blast
qed

text \<open>
  Claim C9 fails on this input: a line of a hundred thousand opening brackets is not JSON,
  and \<open>json.loads\<close> raises \<open>RecursionError\<close> on it, which no handler of
  \<open>aggregate_metrics\<close> catches, although the handler of line 56 is there to skip
  malformed lines. With that line between two records the aggregation raises and
  writes no file; without it, it writes the row of second 1.
\<close>

theorem C9_deeply_nested_line_aborts:
  \<open>read_file example_loads
      (Inr [''{"time": 1, "rtt_ms": 20.5}'', replicate 100000 (CHR ''[''),
            ''{"time": 1, "rtt_ms": 21.25}''])
     = Inl RecursionError
   \<and> aggregate_metrics example_floats example_loads
      (Inr [''{"time": 1, "rtt_ms": 20.5}'', replicate 100000 (CHR ''[''),
            ''{"time": 1, "rtt_ms": 21.25}''])
     = Failed RecursionError None None
   \<and> aggregate_metrics example_floats example_loads
      (Inr [''{"time": 1, "rtt_ms": 20.5}'', ''{"time": 1, "rtt_ms": 21.25}''])
     = Saved [(KNum 1, 2088 / 100)] []\<close>
proof -
  have d: "example_loads (strip (replicate 100000 (CHR ''[''))) = Inl RecursionError"
    by (simp add: strip_replicate is_space_def example_loads_def list_all_replicate)
  have l: \<open>line_body example_loads ''{"time": 1, "rtt_ms": 20.5}'' []
             = (Inl KeyError, [(KNum 1, \<lparr>rtt = [JNum (205 / 10)], cwnd = []\<rparr>)])\<close>
    by (simp add: agg_eval)
  have b: "line_body example_loads (replicate 100000 (CHR ''['')) m = (Inl RecursionError, m)" for m
    by (simp add: line_body_def d)
  have r: \<open>read_file example_loads
      (Inr [''{"time": 1, "rtt_ms": 20.5}'', replicate 100000 (CHR ''[''),
            ''{"time": 1, "rtt_ms": 21.25}''])
     = Inl RecursionError\<close>
    by (simp add: read_file_def l b)
  then have f: \<open>aggregate_metrics example_floats example_loads
      (Inr [''{"time": 1, "rtt_ms": 20.5}'', replicate 100000 (CHR ''[''),
            ''{"time": 1, "rtt_ms": 21.25}''])
     = Failed RecursionError None None\<close>
    by (simp add: aggregate_metrics_def)
  have s: \<open>aggregate_metrics example_floats example_loads
      (Inr [''{"time": 1, "rtt_ms": 20.5}'', ''{"time": 1, "rtt_ms": 21.25}''])
     = Saved [(KNum 1, 2088 / 100)] []\<close>
    by (simp add: agg_eval)
  from r f s show ?thesis by blast
qed
section \<open>Properties of the sender's records\<close>

lemma make_metric_record: "is_sender_record (make_metric fp s c r)"
  by (auto simp: make_metric_def is_sender_record_def Let_def)

lemma loop_body_buffer:
  "list_all is_sender_record (metrics_buffer c) \<Longrightarrow>
     list_all is_sender_record (metrics_buffer (loop_body fp s n k c))"
  by (simp add: loop_body_def Let_def make_metric_record)

lemma send_loop_buffer:
  "send_loop fp s e n ks c = Some c' \<Longrightarrow> list_all is_sender_record (metrics_buffer c) \<Longrightarrow>
     list_all is_sender_record (metrics_buffer c')"
proof (induction ks arbitrary: c)
  case Nil
  then show ?case by simp
next
  case (Cons k ks)
  show ?case
  proof (cases "test_time k < e")
    case True
    with Cons.prems(1) have "send_loop fp s e n ks (loop_body fp s n k c) = Some c'" by simp
    from Cons.IH [OF this loop_body_buffer [OF Cons.prems(2)]] show ?thesis .
  next
    case False
    with Cons.prems show ?thesis by simp
  qed
qed

lemma keys_update: "list_all is_KNum (map fst m) \<Longrightarrow> is_KNum k \<Longrightarrow>
   list_all is_KNum (map fst (AList.update k v m))"
  by (induction m) auto

lemma line_body_sender:
  assumes "sender_line loads line" "list_all is_KNum (map fst m)"
  shows "\<exists>m'. line_body loads line m = (Inl KeyError, m') \<and> list_all is_KNum (map fst m')"
proof -
  from assms(1) obtain e r where
    l: "loads (strip line) = Inr (JObj [(''time'', JNum (of_int e)), (''rtt_ms'', JNum r)])"
    unfolding sender_line_def is_sender_record_def by blast
  show ?thesis
    using assms(2)
    by (auto simp: line_body_def l Let_def get_default_def append_rtt_def keys_update
        split: option.splits)
qed

lemma read_lines_sender:
  "list_all (sender_line loads) lines \<Longrightarrow> list_all is_KNum (map fst m) \<Longrightarrow>
     \<exists>m'. read_lines loads lines m = Inr m' \<and> list_all is_KNum (map fst m')"
proof (induction lines arbitrary: m)
  case Nil
  then show ?case by simp
next
  case (Cons line rest)
  from Cons.prems have sl: "sender_line loads line" and rest: "list_all (sender_line loads) rest"
    by simp_all
  from line_body_sender [OF sl Cons.prems(2)] obtain m1
    where m1: "line_body loads line m = (Inl KeyError, m1)" "list_all is_KNum (map fst m1)"
    by blast
  from Cons.IH [OF rest m1(2)] obtain m' where
    "read_lines loads rest m1 = Inr m'" "list_all is_KNum (map fst m')" by blast
  with m1 show ?case by simp
qed

lemma sender_line_cwnd: "sender_line loads line \<Longrightarrow> at_key t (cwnd_sample loads line) = []"
  by (auto simp: sender_line_def is_sender_record_def cwnd_sample_def at_key_def)

lemma sender_lines_cwnd:
  "list_all (sender_line loads) lines \<Longrightarrow> cwnd_samples loads lines t = []"
  by (induction lines) (auto simp: cwnd_samples_def sender_line_cwnd)

lemma rtt_rows_total:
  "(\<And>t. rtt (entry_of m t) \<noteq> [] \<Longrightarrow> \<exists>a. float_mean fp (rtt (entry_of m t)) = Inr a) \<Longrightarrow>
     \<exists>rows. rtt_rows fp m ts = (None, rows)"
proof (induction ts)
  case Nil
  then show ?case by simp
next
  case (Cons t ts)
  from Cons.IH [OF Cons.prems] obtain rows where r: "rtt_rows fp m ts = (None, rows)" by blast
  show ?case
  proof (cases "rtt (entry_of m t) = []")
    case True
    with r show ?thesis by simp
  next
    case False
    from Cons.prems [OF False] obtain a where "float_mean fp (rtt (entry_of m t)) = Inr a"
      by blast
    with False r show ?thesis by simp
  qed
qed

lemma cwnd_rows_empty:
  "(\<And>t. cwnd (entry_of m t) = []) \<Longrightarrow> cwnd_rows fp m ts = (None, [])"
  by (induction ts) simp_all

lemma sorted_keys_KNum: "list_all is_KNum ks \<Longrightarrow> \<exists>ts. sorted_keys ks = Inr ts"
  by (simp add: sorted_keys_def)

lemma aggregate_sender_lines:
  assumes "list_all (sender_line loads) lines"
  shows "(\<exists>rows. aggregate_metrics fp loads (Inr lines) = Saved rows [])
         \<or> (\<exists>e rows. aggregate_metrics fp loads (Inr lines) = Failed e (Some rows) None)"
    and "(\<forall>u. rtt_samples loads lines u = []
               \<or> (\<exists>a. float_mean fp (rtt_samples loads lines u) = Inr a)) \<Longrightarrow>
         \<exists>rows. aggregate_metrics fp loads (Inr lines) = Saved rows []"
proof -
  from read_lines_sender [OF assms, of "[]"] obtain m
    where m: "read_lines loads lines [] = Inr m" "list_all is_KNum (map fst m)" by auto
  from sorted_keys_KNum [OF m(2)] obtain ts where ts: "sorted_keys (map fst m) = Inr ts" by blast
  have sam: "rtt (entry_of m u) = rtt_samples loads lines u" for u
    using read_lines_rtt [OF m(1), of u] by (simp add: entry_of_def)
  have cw: "cwnd (entry_of m u) = []" for u
    using read_lines_cwnd [OF m(1), of u] sender_lines_cwnd [OF assms, of u]
    by (simp add: entry_of_def)
  have cr: "cwnd_rows fp m ts = (None, [])" using cwnd_rows_empty [of m fp ts] cw by blast
  obtain ex rows where rr: "rtt_rows fp m ts = (ex, rows)" by (cases "rtt_rows fp m ts")
  show "(\<exists>rows. aggregate_metrics fp loads (Inr lines) = Saved rows [])
         \<or> (\<exists>e rows. aggregate_metrics fp loads (Inr lines) = Failed e (Some rows) None)"
    by (cases ex) (simp_all add: aggregate_metrics_def read_file_def m(1) ts rr cr)
  show "\<exists>rows. aggregate_metrics fp loads (Inr lines) = Saved rows []"
    if md: "\<forall>u. rtt_samples loads lines u = []
               \<or> (\<exists>a. float_mean fp (rtt_samples loads lines u) = Inr a)"
  proof -
    have "\<exists>a. float_mean fp (rtt (entry_of m u)) = Inr a" if "rtt (entry_of m u) \<noteq> []" for u
      using md that unfolding sam by blast
    from rtt_rows_total [of m fp ts, OF this] obtain rows'
      where "rtt_rows fp m ts = (None, rows')" by blast
    then show ?thesis by (simp add: aggregate_metrics_def read_file_def m(1) ts cr)
  qed
qed


lemma flush_sender_lines:
  assumes "list_all (sender_line loads) content"
    and "\<forall>m \<in> set buffer. is_sender_record m \<and> loads (strip (dumps m @ [CHR 0x0A])) = Inr m"
  shows "list_all (sender_line loads) (flush_metrics dumps f ok buffer content)"
  using assms by (auto simp: flush_metrics_def list_all_iff sender_line_def)

lemma cwnd_rows_keys:
  "cwnd_rows fp m ts = (None, rows) \<Longrightarrow>
     map fst rows = filter (\<lambda>t. cwnd (entry_of m t) \<noteq> []) ts"
  by (induction ts arbitrary: rows) (auto split: sum.splits prod.splits if_splits)

lemma aggregate_Saved_cwnd:
  assumes "aggregate_metrics fp loads (Inr lines) = Saved rows crows"
  shows "distinct (map fst crows)"
    and "t \<in> fst ` set crows \<longleftrightarrow> cwnd_samples loads lines t \<noteq> []"
proof -
  from aggregate_Saved_parts [OF assms] obtain m ts where
    m: "read_lines loads lines [] = Inr m" and
    ts: "sorted_keys (map fst m) = Inr ts" and
    cr: "cwnd_rows fp m ts = (None, crows)"
    by metis
  have sam: "cwnd (entry_of m u) = cwnd_samples loads lines u" for u
    using read_lines_cwnd [OF m, of u] by (simp add: entry_of_def)
  have "distinct (map fst m)" using read_lines_distinct [OF m] by simp
  then have dts: "distinct ts" by (rule sorted_keys_distinct [OF ts])
  have keys: "map fst crows = filter (\<lambda>u. cwnd_samples loads lines u \<noteq> []) ts"
    using cwnd_rows_keys [OF cr] by (simp add: sam)
  show "distinct (map fst crows)" using dts keys by simp
  have "t \<in> set ts" if ne: "cwnd_samples loads lines t \<noteq> []"
  proof -
    have "t \<in> set (map fst m)"
    proof (rule ccontr)
      assume "t \<notin> set (map fst m)"
      then have "map_of m t = None" by (simp add: map_of_eq_None_iff)
      then have "cwnd (entry_of m t) = []" by (simp add: entry_of_def)
      with ne sam show False by simp
    qed
    then show ?thesis using sorted_keys_set [OF ts] by simp
  qed
  moreover have "t \<in> fst ` set crows \<longleftrightarrow> t \<in> set (map fst crows)" by simp
  ultimately show "t \<in> fst ` set crows \<longleftrightarrow> cwnd_samples loads lines t \<noteq> []"
    unfolding keys by auto
qed

text \<open>
  Claim C5, as amended. Every record the sender buffers has the two members
  \<open>time\<close> and \<open>rtt_ms\<close>, and no \<open>cwnd_bytes\<close>; the flush appends each record as
  one line ending in a newline; the aggregation of a file of such lines writes no
  data row to \<open>cwnd.csv\<close>, and it runs to its end, with a \<open>cwnd.csv\<close> of no data
  row, when the interpreter computes the mean of the \<open>rtt_ms\<close> samples of every
  second of the file; and in general \<open>cwnd.csv\<close> has one row for a second exactly
  when one of the second's samples carries \<open>cwnd_bytes\<close>.
\<close>

theorem C5_sender_records_have_no_cwnd:
  "(send_loop fp s e n ks c0 = Some c \<and> metrics_buffer c0 = [] \<longrightarrow>
      list_all is_sender_record (metrics_buffer c)
      \<and> (\<forall>m \<in> set (metrics_buffer c). subscript m ''cwnd_bytes'' = Inl KeyError))
   \<and> (f \<noteq> [] \<and> buffer \<noteq> [] \<longrightarrow>
        flush_metrics dumps f True buffer content = content @ map (\<lambda>m. dumps m @ [CHR 0x0A]) buffer)
   \<and> (list_all (sender_line loads) content
        \<and> (\<forall>m \<in> set buffer. is_sender_record m \<and> loads (strip (dumps m @ [CHR 0x0A])) = Inr m)
      \<longrightarrow> ((\<exists>rows. aggregate_metrics fp loads (Inr (flush_metrics dumps f ok buffer content))
                    = Saved rows [])
           \<or> (\<exists>x rows. aggregate_metrics fp loads (Inr (flush_metrics dumps f ok buffer content))
                    = Failed x (Some rows) None))
          \<and> ((\<forall>u. rtt_samples loads (flush_metrics dumps f ok buffer content) u = []
                   \<or> (\<exists>a. float_mean fp
                              (rtt_samples loads (flush_metrics dumps f ok buffer content) u)
                            = Inr a)) \<longrightarrow>
               (\<exists>rows. aggregate_metrics fp loads (Inr (flush_metrics dumps f ok buffer content))
                    = Saved rows [])))
   \<and> (aggregate_metrics fp loads (Inr lines) = Saved rows crows \<longrightarrow>
        distinct (map fst crows)
        \<and> (t \<in> fst ` set crows \<longleftrightarrow> cwnd_samples loads lines t \<noteq> []))"
proof (intro conjI impI)
  assume a: "send_loop fp s e n ks c0 = Some c \<and> metrics_buffer c0 = []"
  then show r: "list_all is_sender_record (metrics_buffer c)"
    using send_loop_buffer [of fp s e n ks c0 c] by simp
  show "\<forall>m \<in> set (metrics_buffer c). subscript m ''cwnd_bytes'' = Inl KeyError"
    using r by (auto simp: list_all_iff is_sender_record_def)
next
  assume "f \<noteq> [] \<and> buffer \<noteq> []"
  then show "flush_metrics dumps f True buffer content
               = content @ map (\<lambda>m. dumps m @ [CHR 0x0A]) buffer"
    by (simp add: flush_metrics_def)
next
  assume "list_all (sender_line loads) content
     \<and> (\<forall>m \<in> set buffer. is_sender_record m \<and> loads (strip (dumps m @ [CHR 0x0A])) = Inr m)"
  then have sl: "list_all (sender_line loads) (flush_metrics dumps f ok buffer content)"
    using flush_sender_lines [of loads content buffer dumps f ok] by blast
  show "(\<exists>rows. aggregate_metrics fp loads (Inr (flush_metrics dumps f ok buffer content))
                    = Saved rows [])
           \<or> (\<exists>x rows. aggregate_metrics fp loads (Inr (flush_metrics dumps f ok buffer content))
                    = Failed x (Some rows) None)"
    by (rule aggregate_sender_lines(1) [OF sl])
  show "\<exists>rows. aggregate_metrics fp loads (Inr (flush_metrics dumps f ok buffer content))
                    = Saved rows []"
    if "\<forall>u. rtt_samples loads (flush_metrics dumps f ok buffer content) u = []
                   \<or> (\<exists>a. float_mean fp
                              (rtt_samples loads (flush_metrics dumps f ok buffer content) u)
                            = Inr a)"
    by (rule aggregate_sender_lines(2) [OF sl that])
next
  assume a: "aggregate_metrics fp loads (Inr lines) = Saved rows crows"
  show "distinct (map fst crows)" by (rule aggregate_Saved_cwnd(1) [OF a])
  show "t \<in> fst ` set crows \<longleftrightarrow> cwnd_samples loads lines t \<noteq> []"
    by (rule aggregate_Saved_cwnd(2) [OF a])
qed

theorem C5_sender_records_have_no_cwnd_witness:
  \<open>send_loop example_floats 0 2 16384
      [\<lparr>test_time = 1 / 2, current_time = 1 / 2, rtt_smoothed = Some (1 / 64)\<rparr>,
       \<lparr>test_time = 3 / 2, current_time = 3 / 2, rtt_smoothed = Some (1 / 32)\<rparr>,
       \<lparr>test_time = 5 / 2, current_time = 5 / 2, rtt_smoothed = None\<rparr>]
      \<lparr>bytes_sent = 0, last_log_time = 0, last_bytes = 0, metrics_buffer = []\<rparr>
     = Some \<lparr>bytes_sent = 32768, last_log_time = 3 / 2, last_bytes = 32768,
             metrics_buffer = [JObj [(''time'', JNum 1), (''rtt_ms'', JNum (3125 / 100))]]\<rparr>
   \<and> subscript (JObj [(''time'', JNum 1), (''rtt_ms'', JNum (3125 / 100))]) ''cwnd_bytes''
       = Inl KeyError
   \<and> flush_metrics example_dumps ''1_raw_metrics.json'' True
        [JObj [(''time'', JNum 1), (''rtt_ms'', JNum (3125 / 100))]] []
       = [''{"time": 1, "rtt_ms": 31.25}'' @ [CHR 0x0A]]
   \<and> rtt_samples example_loads [''{"time": 1, "rtt_ms": 31.25}'' @ [CHR 0x0A]] (KNum 1)
       = [JNum (3125 / 100)]
   \<and> float_mean example_floats [JNum (3125 / 100)] = Inr (3125 / 100)
   \<and> (\<exists>rows. aggregate_metrics example_floats example_loads
                 (Inr [''{"time": 1, "rtt_ms": 31.25}'' @ [CHR 0x0A]]) = Saved rows [])
   \<and> cwnd_samples example_loads [''{"time": 1, "rtt_ms": 31.25}'' @ [CHR 0x0A]] (KNum 1) = []\<close>
proof -
  let ?rec = "JObj [(''time'', JNum 1), (''rtt_ms'', JNum (3125 / 100))]"
  let ?line = \<open>''{"time": 1, "rtt_ms": 31.25}'' @ [CHR 0x0A]\<close>
  let ?init = "\<lparr>bytes_sent = 0, last_log_time = 0, last_bytes = 0, metrics_buffer = []\<rparr>"
  let ?c = "\<lparr>bytes_sent = 32768, last_log_time = 3 / 2, last_bytes = 32768,
             metrics_buffer = [?rec]\<rparr>"
  let ?ks = "[\<lparr>test_time = 1 / 2, current_time = 1 / 2, rtt_smoothed = Some (1 / 64)\<rparr>,
       \<lparr>test_time = 3 / 2, current_time = 3 / 2, rtt_smoothed = Some (1 / 32)\<rparr>,
       \<lparr>test_time = 5 / 2, current_time = 5 / 2, rtt_smoothed = None\<rparr>]"
  have run: "send_loop example_floats 0 2 16384 ?ks ?init = Some ?c"
    by (simp add: loop_body_def make_metric_def py_int_def example_floats_def
        decimal_round2_def round_half_even_def Let_def)
  have buf: "metrics_buffer ?init = []" by simp
  have shape: "is_sender_record ?rec"
    unfolding is_sender_record_def by (rule exI [of _ 1], rule exI [of _ "3125 / 100"]) simp
  have roundtrip: "example_loads (strip (example_dumps ?rec @ [CHR 0x0A])) = Inr ?rec"
    by (simp add: example_loads_def example_dumps_def strip_def is_space_def)
  have agg: "aggregate_metrics example_floats example_loads (Inr [?line])
               = Saved [(KNum 1, 3125 / 100)] []"
    by (simp add: agg_eval)
  have fl: "flush_metrics example_dumps ''1_raw_metrics.json'' True [?rec] [] = [?line]"
    by (simp add: flush_metrics_def example_dumps_def)
  have sam: "rtt_samples example_loads [?line] u = (if u = KNum 1 then [JNum (3125 / 100)] else [])"
    for u
    by (auto simp: rtt_samples_def rtt_sample_def at_key_def example_loads_def strip_def
        is_space_def)
  have mean: "float_mean example_floats [JNum (3125 / 100)] = Inr (3125 / 100)"
    by (simp add: float_mean_def example_floats_def exact_sum_def truediv_def)
  have md: "\<forall>u. rtt_samples example_loads [?line] u = []
              \<or> (\<exists>a. float_mean example_floats (rtt_samples example_loads [?line] u) = Inr a)"
  proof
    fix u
    show "rtt_samples example_loads [?line] u = []
              \<or> (\<exists>a. float_mean example_floats (rtt_samples example_loads [?line] u) = Inr a)"
    proof (cases "u = KNum 1")
      case True
      with mean
      have "float_mean example_floats (rtt_samples example_loads [?line] u) = Inr (3125 / 100)"
        unfolding sam by simp
      then show ?thesis by blast
    next
      case False
      then have "rtt_samples example_loads [?line] u = []" unfolding sam by simp
      then show ?thesis by blast
    qed
  qed
  note inst = C5_sender_records_have_no_cwnd
    [where fp = example_floats and s = 0 and e = 2 and n = 16384 and ks = ?ks
       and ?c0.0 = ?init and c = ?c
       and f = "''1_raw_metrics.json''" and buffer = "[?rec]" and dumps = example_dumps
       and content = "[]" and loads = example_loads and ok = True and lines = "[?line]"
       and rows = "[(KNum 1, 3125 / 100)]" and crows = "[]" and t = "KNum 1"]
  have 1: "subscript ?rec ''cwnd_bytes'' = Inl KeyError"
    using inst [THEN conjunct1, THEN mp, OF conjI [OF run buf]] by simp
  have pre: "list_all (sender_line example_loads) []
     \<and> (\<forall>m \<in> set [?rec]. is_sender_record m
            \<and> example_loads (strip (example_dumps m @ [CHR 0x0A])) = Inr m)"
    using shape roundtrip by simp
  have 2: "\<exists>rows. aggregate_metrics example_floats example_loads (Inr [?line]) = Saved rows []"
    using inst [THEN conjunct2, THEN conjunct2, THEN conjunct1, THEN mp, OF pre,
                THEN conjunct2, unfolded fl, THEN mp, OF md] .
  have 3: "cwnd_samples example_loads [?line] (KNum 1) = []"
    using inst [THEN conjunct2, THEN conjunct2, THEN conjunct2, THEN mp, OF agg] by simp
  have s1: "rtt_samples example_loads [?line] (KNum 1) = [JNum (3125 / 100)]"
    unfolding sam by simp
  from run 1 fl s1 mean 2 3 show ?thesis by blast
qed

text \<open>
  Claim C5 as stated fails: the record the sender buffers in second 1 has no
  \<open>cwnd_bytes\<close> member, and the aggregation of its line writes an \<open>rtt.csv\<close> row
  for second 1 and no \<open>cwnd.csv\<close> row.
\<close>

theorem C5_record_lacks_cwnd_bytes:
  \<open>make_metric example_floats 0 (3 / 2) (Some (1 / 32))
     = JObj [(''time'', JNum 1), (''rtt_ms'', JNum (3125 / 100))]
   \<and> subscript (make_metric example_floats 0 (3 / 2) (Some (1 / 32))) ''cwnd_bytes''
       = Inl KeyError
   \<and> example_loads (strip (''{"time": 1, "rtt_ms": 31.25}'' @ [CHR 0x0A]))
       = Inr (make_metric example_floats 0 (3 / 2) (Some (1 / 32)))
   \<and> rtt_samples example_loads [''{"time": 1, "rtt_ms": 31.25}'' @ [CHR 0x0A]] (KNum 1)
       = [JNum (3125 / 100)]
   \<and> aggregate_metrics example_floats example_loads
        (Inr [''{"time": 1, "rtt_ms": 31.25}'' @ [CHR 0x0A]])
       = Saved [(KNum 1, 3125 / 100)] []\<close>
proof -
  have m: "make_metric example_floats 0 (3 / 2) (Some (1 / 32))
     = JObj [(''time'', JNum 1), (''rtt_ms'', JNum (3125 / 100))]"
    by (simp add: make_metric_def py_int_def example_floats_def decimal_round2_def
        round_half_even_def Let_def)
  have l: \<open>example_loads (strip (''{"time": 1, "rtt_ms": 31.25}'' @ [CHR 0x0A]))
       = Inr (JObj [(''time'', JNum 1), (''rtt_ms'', JNum (3125 / 100))])\<close>
    by (simp add: example_loads_def strip_def is_space_def)
  have s: \<open>rtt_samples example_loads [''{"time": 1, "rtt_ms": 31.25}'' @ [CHR 0x0A]] (KNum 1)
       = [JNum (3125 / 100)]\<close>
    by (simp add: rtt_samples_def rtt_sample_def at_key_def example_loads_def strip_def
        is_space_def)
  have a: \<open>aggregate_metrics example_floats example_loads
        (Inr [''{"time": 1, "rtt_ms": 31.25}'' @ [CHR 0x0A]])
       = Saved [(KNum 1, 3125 / 100)] []\<close>
    by (simp add: agg_eval)
  from m l s a show ?thesis by simp
qed
section \<open>Properties of the run orchestrator\<close>

lemma io_bind_Inr:
  "io_bind m f tr = (Inr y, tr'') \<longleftrightarrow> (\<exists>x tr'. m tr = (Inr x, tr') \<and> f x tr' = (Inr y, tr''))"
  by (auto simp: io_bind_def split: prod.splits sum.splits)

lemma io_return_eq: "io_return x tr = (r, tr') \<longleftrightarrow> r = Inr x \<and> tr' = tr"
  by (auto simp: io_return_def)

lemma perform_Inr: "perform env ev tr = (Inr u, tr') \<longleftrightarrow> fault env (length tr) = None \<and> tr' = tr @ [ev]"
  by (auto simp: perform_def split: option.splits)

lemma get_bytes_Inr:
  "get_bytes env d tr = (Inr v, tr') \<longleftrightarrow>
     fault env (length tr) = None \<and> tx_bytes env (length tr) d = Some v \<and> tr' = tr @ [GetBytes d]"
  by (auto simp: get_bytes_def split: option.splits)

lemma get_rx_bytes_Inr:
  "get_rx_bytes env d tr = (Inr v, tr') \<longleftrightarrow>
     fault env (length tr) = None \<and> rx_bytes env (length tr) d = Some v \<and> tr' = tr @ [GetRxBytes d]"
  by (auto simp: get_rx_bytes_def split: option.splits)

lemma collect_reader:
  assumes rd: "\<And>dev tr v tr'. reader dev tr = (Inr v, tr') \<Longrightarrow>
                 counter (length tr) dev = Some v \<and> tr' = tr @ [ev dev]"
  shows "collect reader ds tr = (Inr vs, tr') \<Longrightarrow>
     tr' = tr @ map ev ds \<and> length vs = length ds
     \<and> (\<forall>i < length ds. counter (length tr + i) (ds ! i) = Some (vs ! i))"
proof (induction ds arbitrary: tr vs)
  case Nil
  then show ?case by (simp add: io_return_eq)
next
  case (Cons d ds)
  from Cons.prems obtain v vs' tr1 where
    g: "reader d tr = (Inr v, tr1)" and
    rest: "collect reader ds tr1 = (Inr vs', tr')" and vs: "vs = v # vs'"
    by (auto simp: io_bind_Inr io_return_eq)
  from rd [OF g] have v: "counter (length tr) d = Some v" and tr1: "tr1 = tr @ [ev d]"
    by simp_all
  from Cons.IH [OF rest] have
    ih: "tr' = tr1 @ map ev ds" "length vs' = length ds"
      "\<forall>i < length ds. counter (length tr1 + i) (ds ! i) = Some (vs' ! i)" by auto
  have "counter (length tr + i) ((d # ds) ! i) = Some (vs ! i)" if "i < length (d # ds)" for i
  proof (cases i)
    case 0
    with v vs show ?thesis by simp
  next
    case (Suc j)
    with that ih(3) tr1 vs show ?thesis by simp
  qed
  with ih tr1 vs show ?case by simp
qed

lemma get_bytes_reader:
  "get_bytes env dev tr = (Inr v, tr') \<Longrightarrow>
     tx_bytes env (length tr) dev = Some v \<and> tr' = tr @ [GetBytes dev]"
  by (simp add: get_bytes_Inr)

lemma get_rx_bytes_reader:
  "get_rx_bytes env dev tr = (Inr v, tr') \<Longrightarrow>
     rx_bytes env (length tr) dev = Some v \<and> tr' = tr @ [GetRxBytes dev]"
  by (simp add: get_rx_bytes_Inr)

lemma for_each_trace:
  assumes step: "\<And>x tr u tr'. f x tr = (Inr u, tr') \<Longrightarrow> tr' = tr @ evs x"
  shows "for_each f xs tr = (Inr u, tr') \<Longrightarrow> tr' = tr @ concat (map evs xs)"
proof (induction xs arbitrary: tr)
  case Nil
  then show ?case by (simp add: io_return_eq)
next
  case (Cons x xs)
  from Cons.prems obtain u1 tr1 where a: "f x tr = (Inr u1, tr1)"
    and b: "for_each f xs tr1 = (Inr u, tr')"
    by (auto simp: io_bind_Inr)
  from step [OF a] Cons.IH [OF b] show ?case by simp
qed


lemma for_each_perform:
  "for_each (\<lambda>x. perform env (ev x)) xs tr = (Inr u, tr') \<Longrightarrow> tr' = tr @ map ev xs"
  using for_each_trace [where f = "\<lambda>x. perform env (ev x)" and evs = "\<lambda>x. [ev x]" and xs = xs]
  by (simp add: perform_Inr)

lemma for_each_certificates:
  "for_each (generate_certificates env) hs tr = (Inr u, tr') \<Longrightarrow>
     tr' = tr @ concat (map (\<lambda>h. [Cmd h MkdirCerts, Cmd h OpensslReq]) hs)"
  using for_each_trace [where f = "generate_certificates env"
      and evs = "\<lambda>h. [Cmd h MkdirCerts, Cmd h OpensslReq]" and xs = hs]
  by (auto simp: generate_certificates_def io_bind_Inr perform_Inr)

lemma for_each_clients:
  assumes "for_each (start_client env s1 s2 rate) is tr = (Inr u, tr')"
  shows "tr' = tr @ map (\<lambda>i. Cmd (s1 ! i) (StartClient (s2 ! i) rate)) is"
proof -
  have step: "\<And>x tr u tr'. start_client env s1 s2 rate x tr = (Inr u, tr') \<Longrightarrow>
      tr' = tr @ [Cmd (s1 ! x) (StartClient (s2 ! x) rate)]"
    by (auto simp: start_client_def perform_Inr io_raise_def split: if_splits)
  from for_each_trace [where evs = "\<lambda>i. [Cmd (s1 ! i) (StartClient (s2 ! i) rate)]",
      OF step assms]
  show ?thesis by simp
qed

lemma sleep_Inr: "sleep env d tr = (Inr u, tr') \<Longrightarrow> tr' = tr @ [Sleep d]"
  by (auto simp: sleep_def perform_Inr io_raise_def split: if_splits)


lemma io_lift_eq: "io_lift r tr = (r', tr') \<longleftrightarrow> r = r' \<and> tr' = tr"
  by (auto simp: io_lift_def)


lemma throughputs_trace:
  assumes rd: "\<And>dev tr v tr'. reader dev tr = (Inr v, tr') \<Longrightarrow> tr' = tr @ [ev dev]"
  shows "throughputs reader d ps acc tr = (Inr m, tr') \<Longrightarrow> tr' = tr @ map ev (map fst ps)"
proof (induction ps arbitrary: acc tr)
  case Nil
  then show ?case by (simp add: io_return_eq)
next
  case (Cons p ps)
  obtain dev b where p: "p = (dev, b)" by (cases p)
  from Cons.prems(1) p obtain a t tr1 where
    g: "reader dev tr = (Inr a, tr1)" and
    rest: "throughputs reader d ps (AList.update dev t acc) tr1 = (Inr m, tr')"
    by (auto simp: io_bind_Inr io_lift_eq)
  from rd [OF g] Cons.IH [OF rest] p show ?case by simp
qed

lemma aggregate_step_Inr:
  "aggregate_step env tr = (Inr u, tr') \<Longrightarrow>
     tr' = tr \<or> (\<exists>rows crows. tr' = tr @ [WriteRtt rows, WriteCwnd crows])"
  by (cases "aggregate_metrics (floating env) (json_loads env) (raw_metrics env)")
     (auto simp: aggregate_step_def io_return_eq io_bind_Inr perform_Inr io_raise_def)

lemma remove_raw_eq:
  "remove_raw env tr = (r, tr') \<Longrightarrow>
     r = Inr ()
     \<and> (tr' = tr @ [RemoveRaw] \<or> (tr' = tr \<and> raw_metrics env = Inl FileNotFoundError)
          \<or> (\<exists>e. tr' = tr @ [Fault e]))"
  by (auto simp: remove_raw_def split: option.splits if_splits)

lemma run_phases:
  assumes run: "run_quic_experiments env hosts n si d other bw tr0 = (Inr thr, tr)"
  defines "s1 \<equiv> slice_to hosts (n div 2)" and "s2 \<equiv> slice_from hosts (n div 2)"
  shows "\<exists>tx1 t1 rx1 t2 t3 t4 t5 t6 rate t7 t8 t9 thr1 t10 t11 t12 t13 t14 t15.
    collect (get_bytes env) si tr0 = (Inr tx1, t1) \<and>
    (case other of None \<Rightarrow> io_return [] | Some os \<Rightarrow> collect (get_rx_bytes env) os) t1
       = (Inr rx1, t2) \<and>
    for_each (generate_certificates env) s2 t2 = (Inr (), t3) \<and>
    for_each (\<lambda>h. perform env (Cmd h StartServer)) s2 t3 = (Inr (), t4) \<and>
    sleep env 2 t4 = (Inr (), t5) \<and>
    perform env Makedirs t5 = (Inr (), t6) \<and>
    io_lift (truediv (real_of_int bw) (real (length s1))) t6 = (Inr rate, t7) \<and>
    for_each (start_client env s1 s2 rate) [0..<nat (n div 2)] t7 = (Inr (), t8) \<and>
    sleep env (d + 4) t8 = (Inr (), t9) \<and>
    throughputs (get_bytes env) d (zip si tx1) [] t9 = (Inr thr1, t10) \<and>
    (case other of None \<Rightarrow> io_return thr1
     | Some os \<Rightarrow> throughputs (get_rx_bytes env) d (zip os rx1) thr1) t10 = (Inr thr, t11) \<and>
    aggregate_step env t11 = (Inr (), t12) \<and>
    save_switch_throughput env thr d t12 = (Inr (), t13) \<and>
    for_each (\<lambda>h. perform env (Cmd h PkillServer)) s2 t13 = (Inr (), t14) \<and>
    for_each (\<lambda>h. perform env (Cmd h PkillClient)) hosts t14 = (Inr (), t15) \<and>
    remove_raw env t15 = (Inr (), tr)"
  using run [unfolded run_quic_experiments_def Let_def io_bind_Inr, folded s1_def s2_def]
  by (auto simp: io_return_eq)

lemma run_window:
  assumes p1: "collect (get_bytes env) si tr0 = (Inr tx1, t1)"
    and p2: "(case other of None \<Rightarrow> io_return [] | Some os \<Rightarrow> collect (get_rx_bytes env) os) t1
           = (Inr rx1, t2)"
    and p3: "for_each (generate_certificates env) s2 t2 = (Inr (), t3)"
    and p4: "for_each (\<lambda>h. perform env (Cmd h StartServer)) s2 t3 = (Inr (), t4)"
    and p5: "sleep env 2 t4 = (Inr (), t5)"
    and p6: "perform env Makedirs t5 = (Inr (), t6)"
    and p7: "io_lift (truediv (real_of_int bw) (real (length s1))) t6 = (Inr rate, t7)"
    and p8: "for_each (start_client env s1 s2 rate) [0..<nat (n div 2)] t7 = (Inr (), t8)"
    and p9: "sleep env (d + 4) t8 = (Inr (), t9)"
    and s1: "s1 = slice_to hosts (n div 2)" and s2: "s2 = slice_from hosts (n div 2)"
  shows "t9 = tr0 @ window_events hosts n si d other bw"
    and "t1 = tr0 @ map GetBytes si"
    and "length tx1 = length si"
    and "\<forall>i < length si. tx_bytes env (length tr0 + i) (si ! i) = Some (tx1 ! i)"
    and "case other of None \<Rightarrow> True | Some os \<Rightarrow> length rx1 = length os
           \<and> (\<forall>j < length os. rx_bytes env (length t1 + j) (os ! j) = Some (rx1 ! j))"
proof -
  note c1 = collect_reader [where reader = "get_bytes env" and counter = "tx_bytes env"
        and ev = GetBytes, OF get_bytes_reader p1]
  show e1: "t1 = tr0 @ map GetBytes si" using c1 by simp
  show "length tx1 = length si" using c1 by simp
  show "\<forall>i < length si. tx_bytes env (length tr0 + i) (si ! i) = Some (tx1 ! i)"
    using c1 by simp
  have e2: "t2 = t1 @ (case other of None \<Rightarrow> [] | Some os \<Rightarrow> map GetRxBytes os)"
    and "case other of None \<Rightarrow> True | Some os \<Rightarrow> length rx1 = length os
           \<and> (\<forall>j < length os. rx_bytes env (length t1 + j) (os ! j) = Some (rx1 ! j))"
  proof (atomize (full), cases other)
    case None
    with p2 show "t2 = t1 @ (case other of None \<Rightarrow> [] | Some os \<Rightarrow> map GetRxBytes os) \<and>
      (case other of None \<Rightarrow> True | Some os \<Rightarrow> length rx1 = length os
           \<and> (\<forall>j < length os. rx_bytes env (length t1 + j) (os ! j) = Some (rx1 ! j)))"
      by (simp add: io_return_eq)
  next
    case (Some os)
    with p2 have "collect (get_rx_bytes env) os t1 = (Inr rx1, t2)" by simp
    from collect_reader [where reader = "get_rx_bytes env" and counter = "rx_bytes env"
        and ev = GetRxBytes, OF get_rx_bytes_reader this] Some
    show "t2 = t1 @ (case other of None \<Rightarrow> [] | Some os \<Rightarrow> map GetRxBytes os) \<and>
      (case other of None \<Rightarrow> True | Some os \<Rightarrow> length rx1 = length os
           \<and> (\<forall>j < length os. rx_bytes env (length t1 + j) (os ! j) = Some (rx1 ! j)))"
      by simp
  qed
  then show "case other of None \<Rightarrow> True | Some os \<Rightarrow> length rx1 = length os
           \<and> (\<forall>j < length os. rx_bytes env (length t1 + j) (os ! j) = Some (rx1 ! j))"
    by simp
  have e3: "t3 = t2 @ concat (map (\<lambda>h. [Cmd h MkdirCerts, Cmd h OpensslReq]) s2)"
    by (rule for_each_certificates [OF p3])
  have e4: "t4 = t3 @ map (\<lambda>h. Cmd h StartServer) s2"
    by (rule for_each_perform [OF p4])
  have e5: "t5 = t4 @ [Sleep 2]" by (rule sleep_Inr [OF p5])
  have e6: "t6 = t5 @ [Makedirs]" using p6 by (simp add: perform_Inr)
  from p7 have e7: "t7 = t6" and rate: "rate = real_of_int bw / real (length s1)"
    by (auto simp: io_lift_eq truediv_def split: if_splits)
  have e8: "t8 = t7 @ client_events s1 s2 rate (nat (n div 2))"
    unfolding client_events_def by (rule for_each_clients [OF p8])
  have e9: "t9 = t8 @ [Sleep (d + 4)]" by (rule sleep_Inr [OF p9])
  show "t9 = tr0 @ window_events hosts n si d other bw"
    unfolding e9 e8 e7 e6 e5 e4 e3 e2 e1 rate window_events_def Let_def
      snapshot_events_def setup_events_def s1 [symmetric] s2 [symmetric]
    by simp
qed


lemma run_success:
  assumes run: "run_quic_experiments env hosts n si d other bw tr0 = (Inr thr, tr)"
  shows "\<exists>agg rm. tr = tr0 @ window_events hosts n si d other bw
            @ snapshot_events si other @ agg
            @ [WriteSwitches (map (\<lambda>(i, t). (i, float_round2 (floating env) t, d)) thr)]
            @ teardown_events (slice_from hosts (n div 2)) hosts @ rm
          \<and> (agg = [] \<or> (\<exists>rows crows. agg = [WriteRtt rows, WriteCwnd crows]))
          \<and> (rm = [RemoveRaw] \<or> (rm = [] \<and> raw_metrics env = Inl FileNotFoundError)
               \<or> (\<exists>e. rm = [Fault e]))"
proof -
  define s1 where "s1 = slice_to hosts (n div 2)"
  define s2 where "s2 = slice_from hosts (n div 2)"
  from run_phases [OF run, folded s1_def s2_def]
  obtain tx1 t1 rx1 t2 t3 t4 t5 t6 rate t7 t8 t9 thr1 t10 t11 t12 t13 t14 t15 where
    p1: "collect (get_bytes env) si tr0 = (Inr tx1, t1)" and
    p2: "(case other of None \<Rightarrow> io_return [] | Some os \<Rightarrow> collect (get_rx_bytes env) os) t1
           = (Inr rx1, t2)" and
    p3: "for_each (generate_certificates env) s2 t2 = (Inr (), t3)" and
    p4: "for_each (\<lambda>h. perform env (Cmd h StartServer)) s2 t3 = (Inr (), t4)" and
    p5: "sleep env 2 t4 = (Inr (), t5)" and
    p6: "perform env Makedirs t5 = (Inr (), t6)" and
    p7: "io_lift (truediv (real_of_int bw) (real (length s1))) t6 = (Inr rate, t7)" and
    p8: "for_each (start_client env s1 s2 rate) [0..<nat (n div 2)] t7 = (Inr (), t8)" and
    p9: "sleep env (d + 4) t8 = (Inr (), t9)" and
    p10: "throughputs (get_bytes env) d (zip si tx1) [] t9 = (Inr thr1, t10)" and
    p11: "(case other of None \<Rightarrow> io_return thr1
           | Some os \<Rightarrow> throughputs (get_rx_bytes env) d (zip os rx1) thr1) t10 = (Inr thr, t11)" and
    p12: "aggregate_step env t11 = (Inr (), t12)" and
    p13: "save_switch_throughput env thr d t12 = (Inr (), t13)" and
    p14: "for_each (\<lambda>h. perform env (Cmd h PkillServer)) s2 t13 = (Inr (), t14)" and
    p15: "for_each (\<lambda>h. perform env (Cmd h PkillClient)) hosts t14 = (Inr (), t15)" and
    p16: "remove_raw env t15 = (Inr (), tr)"
    by blast
  note win = run_window [OF p1 p2 p3 p4 p5 p6 p7 p8 p9 s1_def s2_def]
  have e10: "t10 = t9 @ map GetBytes (map fst (zip si tx1))"
    using throughputs_trace [where reader = "get_bytes env" and ev = GetBytes, OF _ p10]
    by (simp add: get_bytes_Inr)
  have e10': "t10 = t9 @ map GetBytes si" using e10 win(3) by simp
  have e11: "t11 = t10 @ (case other of None \<Rightarrow> [] | Some os \<Rightarrow> map GetRxBytes os)"
  proof (cases other)
    case None
    with p11 show ?thesis by (simp add: io_return_eq)
  next
    case (Some os)
    with win(5) have l2: "length rx1 = length os" by simp
    from Some p11 have "throughputs (get_rx_bytes env) d (zip os rx1) thr1 t10 = (Inr thr, t11)"
      by simp
    from throughputs_trace [where reader = "get_rx_bytes env" and ev = GetRxBytes, OF _ this]
    have "t11 = t10 @ map GetRxBytes (map fst (zip os rx1))" by (simp add: get_rx_bytes_Inr)
    with l2 Some show ?thesis by simp
  qed
  from aggregate_step_Inr [OF p12] obtain agg where
    e12: "t12 = t11 @ agg" and agg: "agg = [] \<or> (\<exists>rows crows. agg = [WriteRtt rows, WriteCwnd crows])"
    by auto
  have e13: "t13 = t12 @ [WriteSwitches (map (\<lambda>(i, t). (i, float_round2 (floating env) t, d)) thr)]"
    using p13 by (simp add: save_switch_throughput_def perform_Inr)
  have e14: "t14 = t13 @ map (\<lambda>h. Cmd h PkillServer) s2" by (rule for_each_perform [OF p14])
  have e15: "t15 = t14 @ map (\<lambda>h. Cmd h PkillClient) hosts" by (rule for_each_perform [OF p15])
  from remove_raw_eq [OF p16] obtain rm where
    e16: "tr = t15 @ rm" and rm: "rm = [RemoveRaw] \<or> (rm = [] \<and> raw_metrics env = Inl FileNotFoundError)
               \<or> (\<exists>e. rm = [Fault e])"
    by auto
  have "tr = tr0 @ window_events hosts n si d other bw
            @ snapshot_events si other @ agg
            @ [WriteSwitches (map (\<lambda>(i, t). (i, float_round2 (floating env) t, d)) thr)]
            @ teardown_events s2 hosts @ rm"
    unfolding e16 e15 e14 e13 e12 e11 e10' win(1) snapshot_events_def teardown_events_def
    by simp
  with agg rm show ?thesis unfolding s2_def by blast
qed



lemma halted_append: "halted evs2 (tr @ evs1) tr' \<Longrightarrow> halted (evs1 @ evs2) tr tr'"
proof -
  assume "halted evs2 (tr @ evs1) tr'"
  then obtain k where k: "tr' = (tr @ evs1) @ take k evs2
      \<or> (\<exists>e. tr' = (tr @ evs1) @ take k evs2 @ [Fault e])"
    unfolding halted_def by blast
  have "take (length evs1 + k) (evs1 @ evs2) = evs1 @ take k evs2" by simp
  with k have "tr' = tr @ take (length evs1 + k) (evs1 @ evs2)
      \<or> (\<exists>e. tr' = tr @ take (length evs1 + k) (evs1 @ evs2) @ [Fault e])"
    by auto
  then show ?thesis unfolding halted_def by blast
qed

lemma halted_weaken: "halted evs tr tr' \<Longrightarrow> halted (evs @ extra) tr tr'"
proof -
  assume "halted evs tr tr'"
  then obtain k where k: "tr' = tr @ take k evs \<or> (\<exists>e. tr' = tr @ take k evs @ [Fault e])"
    unfolding halted_def by blast
  have "take (min k (length evs)) (evs @ extra) = take k evs" by (simp add: min_def)
  with k have "tr' = tr @ take (min k (length evs)) (evs @ extra)
      \<or> (\<exists>e. tr' = tr @ take (min k (length evs)) (evs @ extra) @ [Fault e])"
    by auto
  then show ?thesis unfolding halted_def by blast
qed

lemma halted_same: "halted evs tr tr"
  unfolding halted_def by (rule exI [of _ 0]) simp

lemma halted_fault: "halted evs tr (tr @ [Fault e])"
  unfolding halted_def by (rule exI [of _ 0]) simp

lemma halted_all: "halted evs tr (tr @ evs)"
  unfolding halted_def by (rule exI [of _ "length evs"]) simp

lemma io_bind_cases:
  "io_bind m f tr = (r, tr') \<Longrightarrow>
     (\<exists>e. m tr = (Inl e, tr') \<and> r = Inl e) \<or> (\<exists>x t1. m tr = (Inr x, t1) \<and> f x t1 = (r, tr'))"
  by (auto simp: io_bind_def split: prod.splits sum.splits)

lemma bind_reaches:
  assumes m: "emits evs Q m" and f: "\<And>x. Q x \<Longrightarrow> reaches script (f x)"
  shows "reaches (evs @ script) (io_bind m f)"
  unfolding reaches_def
proof (intro allI impI)
  fix tr r tr'
  assume b: "io_bind m f tr = (r, tr')"
  from io_bind_cases [OF b]
  show "(\<exists>rest. tr' = tr @ (evs @ script) @ rest) \<or> halted (evs @ script) tr tr'"
  proof (elim disjE exE conjE)
    fix e assume "m tr = (Inl e, tr')"
    with m have "halted evs tr tr'" unfolding emits_def by fastforce
    then show ?thesis by (blast intro: halted_weaken)
  next
    fix x t1 assume a: "m tr = (Inr x, t1)" and c: "f x t1 = (r, tr')"
    from m a have t1: "t1 = tr @ evs" and q: "Q x" unfolding emits_def by fastforce+
    from f [OF q] c have "(\<exists>rest. tr' = t1 @ script @ rest) \<or> halted script t1 tr'"
      unfolding reaches_def by blast
    then show ?thesis
    proof
      assume "\<exists>rest. tr' = t1 @ script @ rest"
      with t1 show ?thesis by auto
    next
      assume "halted script t1 tr'"
      with t1 have "halted (evs @ script) tr tr'" by (simp add: halted_append)
      then show ?thesis ..
    qed
  qed
qed

lemma reaches_Nil: "appends_only m \<Longrightarrow> reaches [] m"
  unfolding appends_only_def reaches_def by simp

lemma bind_appends_only:
  assumes "appends_only m" and "\<And>x. appends_only (f x)"
  shows "appends_only (io_bind m f)"
  unfolding appends_only_def
proof (intro allI impI)
  fix tr r tr'
  assume b: "io_bind m f tr = (r, tr')"
  from io_bind_cases [OF b] show "\<exists>rest. tr' = tr @ rest"
  proof (elim disjE exE conjE)
    fix e assume "m tr = (Inl e, tr')"
    with assms(1) show ?thesis unfolding appends_only_def by blast
  next
    fix x t1 assume a: "m tr = (Inr x, t1)" and c: "f x t1 = (r, tr')"
    from assms(1) a obtain r1 where "t1 = tr @ r1" unfolding appends_only_def by blast
    moreover from assms(2) [of x] c obtain r2 where "tr' = t1 @ r2"
      unfolding appends_only_def by blast
    ultimately show ?thesis by simp
  qed
qed

lemma emits_appends_only: "emits evs Q m \<Longrightarrow> appends_only m"
  unfolding emits_def appends_only_def halted_def
  by (fastforce split: sum.splits)


lemma emitsI:
  assumes "\<And>tr x tr'. m tr = (Inr x, tr') \<Longrightarrow> tr' = tr @ evs \<and> Q x"
    and "\<And>tr e tr'. m tr = (Inl e, tr') \<Longrightarrow> halted evs tr tr'"
  shows "emits evs Q m"
  unfolding emits_def using assms by (auto split: sum.splits)

lemma emits_Inr: "emits evs Q m \<Longrightarrow> m tr = (Inr x, tr') \<Longrightarrow> tr' = tr @ evs \<and> Q x"
  unfolding emits_def by fastforce

lemma emits_Inl: "emits evs Q m \<Longrightarrow> m tr = (Inl e, tr') \<Longrightarrow> halted evs tr tr'"
  unfolding emits_def by fastforce

lemma emits_weaken: "emits evs Q m \<Longrightarrow> (\<And>x. Q x \<Longrightarrow> Q' x) \<Longrightarrow> emits evs Q' m"
  unfolding emits_def by (fastforce split: sum.splits)

lemma bind_emits:
  assumes m: "emits evs1 Q m" and f: "\<And>x. Q x \<Longrightarrow> emits evs2 Q2 (f x)"
  shows "emits (evs1 @ evs2) Q2 (io_bind m f)"
proof (rule emitsI)
  fix tr y tr'
  assume "io_bind m f tr = (Inr y, tr')"
  then obtain x t1 where a: "m tr = (Inr x, t1)" and c: "f x t1 = (Inr y, tr')"
    by (auto simp: io_bind_Inr)
  from emits_Inr [OF m a] have t1: "t1 = tr @ evs1" and q: "Q x" by simp_all
  from emits_Inr [OF f [OF q] c] t1 show "tr' = tr @ evs1 @ evs2 \<and> Q2 y" by simp
next
  fix tr e tr'
  assume b: "io_bind m f tr = (Inl e, tr')"
  from io_bind_cases [OF b] show "halted (evs1 @ evs2) tr tr'"
  proof (elim disjE exE conjE)
    fix e' assume "m tr = (Inl e', tr')"
    from emits_Inl [OF m this] show ?thesis by (rule halted_weaken)
  next
    fix x t1 assume a: "m tr = (Inr x, t1)" and c: "f x t1 = (Inl e, tr')"
    from emits_Inr [OF m a] have t1: "t1 = tr @ evs1" and q: "Q x" by simp_all
    from emits_Inl [OF f [OF q] c] t1 show ?thesis by (simp add: halted_append)
  qed
qed

lemma emits_return: "emits [] (\<lambda>y. y = x) (io_return x)"
  by (rule emitsI) (auto simp: io_return_def)

lemma emits_lift: "emits [] (\<lambda>x. r = Inr x) (io_lift r)"
  by (rule emitsI) (auto simp: io_lift_def halted_same)

lemma emits_raise: "emits evs Q (io_raise e)"
  by (rule emitsI) (auto simp: io_raise_def halted_same)

lemma emits_perform: "emits [ev] (\<lambda>u. True) (perform env ev)"
  by (rule emitsI) (auto simp: perform_def halted_fault split: option.splits)

lemma emits_get_bytes: "emits [GetBytes dev] (\<lambda>v. True) (get_bytes env dev)"
  by (rule emitsI) (auto simp: get_bytes_def halted_fault halted_same split: option.splits)

lemma emits_get_rx_bytes: "emits [GetRxBytes dev] (\<lambda>v. True) (get_rx_bytes env dev)"
  by (rule emitsI) (auto simp: get_rx_bytes_def halted_fault halted_same split: option.splits)

lemma emits_sleep: "emits [Sleep d] (\<lambda>u. True) (sleep env d)"
  unfolding sleep_def by (simp add: emits_raise emits_perform)

lemma emits_start_client:
  "emits [Cmd (s1 ! i) (StartClient (s2 ! i) rate)] (\<lambda>u. True) (start_client env s1 s2 rate i)"
  unfolding start_client_def by (simp add: emits_raise emits_perform)

lemma emits_return': "Q x \<Longrightarrow> emits [] Q (io_return x)"
  by (rule emitsI) (auto simp: io_return_def)

lemma emits_certificates:
  "emits [Cmd h MkdirCerts, Cmd h OpensslReq] (\<lambda>u. True) (generate_certificates env h)"
proof -
  have "emits ([Cmd h MkdirCerts] @ [Cmd h OpensslReq]) (\<lambda>u. True)
      (io_bind (perform env (Cmd h MkdirCerts)) (\<lambda>u. perform env (Cmd h OpensslReq)))"
    by (rule bind_emits [OF emits_perform]) (rule emits_perform)
  then show ?thesis by (simp add: generate_certificates_def)
qed

lemma emits_for_each:
  assumes step: "\<And>x. emits (evs x) (\<lambda>u. True) (f x)"
  shows "emits (concat (map evs xs)) (\<lambda>u. True) (for_each f xs)"
proof (induction xs)
  case Nil
  show ?case by (simp add: emits_return')
next
  case (Cons x xs)
  have "emits (evs x @ concat (map evs xs)) (\<lambda>u. True) (io_bind (f x) (\<lambda>u. for_each f xs))"
    by (rule bind_emits [OF step]) (rule Cons.IH)
  then show ?case by simp
qed

lemma emits_collect:
  assumes rd: "\<And>dev. emits [ev dev] (\<lambda>v. True) (reader dev)"
  shows "emits (map ev ds) (\<lambda>vs. length vs = length ds) (collect reader ds)"
proof (induction ds)
  case Nil
  show ?case by (simp add: emits_return')
next
  case (Cons d ds)
  have "emits ([ev d] @ map ev ds) (\<lambda>vs. length vs = length (d # ds))
      (io_bind (reader d) (\<lambda>v. io_bind (collect reader ds) (\<lambda>vs. io_return (v # vs))))"
  proof (rule bind_emits [OF rd])
    fix v
    have "emits (map ev ds @ []) (\<lambda>vs. length vs = length (d # ds))
      (io_bind (collect reader ds) (\<lambda>vs. io_return (v # vs)))"
      by (rule bind_emits [OF Cons.IH]) (simp add: emits_return')
    then show "emits (map ev ds) (\<lambda>vs. length vs = length (d # ds))
      (io_bind (collect reader ds) (\<lambda>vs. io_return (v # vs)))"
      by simp
  qed
  then show ?case by simp
qed

lemma emits_throughputs:
  assumes rd: "\<And>dev. emits [ev dev] (\<lambda>v. True) (reader dev)"
  shows "emits (map ev (map fst ps)) (\<lambda>m. True) (throughputs reader d ps acc)"
proof (induction ps arbitrary: acc)
  case Nil
  show ?case by (simp add: emits_return')
next
  case (Cons p ps)
  obtain dev c1 where p: "p = (dev, c1)" by (cases p)
  have "emits ([ev dev] @ map ev (map fst ps)) (\<lambda>m. True)
      (io_bind (reader dev) (\<lambda>c2. io_bind (io_lift (throughput_mbps c1 c2 d))
         (\<lambda>t. throughputs reader d ps (AList.update dev t acc))))"
  proof (rule bind_emits [OF rd])
    fix c2
    have "emits ([] @ map ev (map fst ps)) (\<lambda>m. True)
      (io_bind (io_lift (throughput_mbps c1 c2 d))
         (\<lambda>t. throughputs reader d ps (AList.update dev t acc)))"
      by (rule bind_emits [OF emits_lift]) (rule Cons.IH)
    then show "emits (map ev (map fst ps)) (\<lambda>m. True)
      (io_bind (io_lift (throughput_mbps c1 c2 d))
         (\<lambda>t. throughputs reader d ps (AList.update dev t acc)))"
      by simp
  qed
  with p show ?case by simp
qed


lemma concat_singletons: "concat (map (\<lambda>x. [ev x]) xs) = map ev xs"
  by (induction xs) simp_all

lemma emits_for_each_perform:
  "emits (map ev xs) (\<lambda>u. True) (for_each (\<lambda>x. perform env (ev x)) xs)"
  using emits_for_each [of "\<lambda>x. [ev x]" "\<lambda>x. perform env (ev x)" xs]
  by (simp add: emits_perform concat_singletons)

lemma emits_for_each_clients:
  "emits (map (\<lambda>i. Cmd (s1 ! i) (StartClient (s2 ! i) rate)) is) (\<lambda>u. True)
     (for_each (start_client env s1 s2 rate) is)"
  using emits_for_each [of "\<lambda>i. [Cmd (s1 ! i) (StartClient (s2 ! i) rate)]"
      "start_client env s1 s2 rate" "is"]
  by (simp add: emits_start_client concat_singletons)

lemma emits_rx_snapshot:
  "emits (case other of None \<Rightarrow> [] | Some os \<Rightarrow> map GetRxBytes os)
     (\<lambda>rx1. case other of None \<Rightarrow> True | Some os \<Rightarrow> length rx1 = length os)
     (case other of None \<Rightarrow> io_return [] | Some os \<Rightarrow> collect (get_rx_bytes env) os)"
  by (cases other) (simp_all add: emits_return' emits_collect [OF emits_get_rx_bytes])

lemma emits_tx_throughputs:
  "length tx1 = length si \<Longrightarrow>
     emits (map GetBytes si) (\<lambda>m. True) (throughputs (get_bytes env) d (zip si tx1) [])"
  using emits_throughputs [of GetBytes "get_bytes env" "zip si tx1" d "[]"]
  by (simp add: emits_get_bytes)

lemma emits_rx_throughputs:
  "(case other of None \<Rightarrow> True | Some os \<Rightarrow> length rx1 = length os) \<Longrightarrow>
     emits (case other of None \<Rightarrow> [] | Some os \<Rightarrow> map GetRxBytes os) (\<lambda>m. True)
       (case other of None \<Rightarrow> io_return thr1
        | Some os \<Rightarrow> throughputs (get_rx_bytes env) d (zip os rx1) thr1)"
proof (cases other)
  case None
  then show ?thesis by (simp add: emits_return')
next
  case (Some os)
  assume "case other of None \<Rightarrow> True | Some os \<Rightarrow> length rx1 = length os"
  with Some have l: "length rx1 = length os" by simp
  from emits_throughputs [of GetRxBytes "get_rx_bytes env" "zip os rx1" d thr1] l Some
  show ?thesis by (simp add: emits_get_rx_bytes)
qed

lemma appends_only_perform: "appends_only (perform env ev)"
  by (rule emits_appends_only [OF emits_perform])

lemma appends_only_return: "appends_only (io_return x)"
  by (simp add: appends_only_def io_return_def)

lemma appends_only_raise: "appends_only (io_raise e)"
  by (simp add: appends_only_def io_raise_def)

lemma appends_only_write_opt: "appends_only (write_opt env ev rows)"
  by (cases rows) (simp_all add: write_opt_def appends_only_return appends_only_perform)

lemma appends_only_aggregate: "appends_only (aggregate_step env)"
  by (cases "aggregate_metrics (floating env) (json_loads env) (raw_metrics env)")
     (simp_all add: aggregate_step_def appends_only_return bind_appends_only appends_only_perform
        appends_only_write_opt appends_only_raise)

lemma appends_only_remove: "appends_only (remove_raw env)"
  by (auto simp: appends_only_def remove_raw_def split: option.splits if_splits)

lemma appends_only_tail:
  "appends_only
     (io_bind (aggregate_step env) (\<lambda>u.
      io_bind (save_switch_throughput env thr d) (\<lambda>u.
      io_bind (for_each (\<lambda>h. perform env (Cmd h PkillServer)) s2) (\<lambda>u.
      io_bind (for_each (\<lambda>h. perform env (Cmd h PkillClient)) hs) (\<lambda>u.
      io_bind (remove_raw env) (\<lambda>u. io_return thr))))))"
  by (intro bind_appends_only appends_only_aggregate appends_only_remove appends_only_return
      emits_appends_only [OF emits_for_each_perform])
     (simp add: save_switch_throughput_def appends_only_perform)


lemma run_reaches:
  "reaches (window_events hs n si d other bw @ snapshot_events si other)
     (run_quic_experiments env hs n si d other bw)"
proof -
  define s1 where "s1 = slice_to hs (n div 2)"
  define s2 where "s2 = slice_from hs (n div 2)"
  define E2 where "E2 = (case other of None \<Rightarrow> [] | Some os \<Rightarrow> map GetRxBytes os)"
  define E3 where "E3 = concat (map (\<lambda>h. [Cmd h MkdirCerts, Cmd h OpensslReq]) s2)"
  define E4 where "E4 = map (\<lambda>h. Cmd h StartServer) s2"
  define E8 where "E8 = map (\<lambda>i. Cmd (s1 ! i)
      (StartClient (s2 ! i) (real_of_int bw / real (length s1)))) [0..<nat (n div 2)]"
  define tail where "tail = (\<lambda>thr.
      io_bind (aggregate_step env) (\<lambda>u.
      io_bind (save_switch_throughput env thr d) (\<lambda>u.
      io_bind (for_each (\<lambda>h. perform env (Cmd h PkillServer)) s2) (\<lambda>u.
      io_bind (for_each (\<lambda>h. perform env (Cmd h PkillClient)) hs) (\<lambda>u.
      io_bind (remove_raw env) (\<lambda>u. io_return thr))))))"
  have t: "reaches [] (tail thr)" for thr
    unfolding tail_def by (rule reaches_Nil [OF appends_only_tail])
  have p11: "reaches (E2 @ [])
      (io_bind (case other of None \<Rightarrow> io_return thr1
                | Some os \<Rightarrow> throughputs (get_rx_bytes env) d (zip os rx1) thr1) tail)"
    if "case other of None \<Rightarrow> True | Some os \<Rightarrow> length rx1 = length os" for rx1 thr1
    unfolding E2_def by (rule bind_reaches [OF emits_rx_throughputs [OF that]]) (rule t)
  have p10: "reaches (map GetBytes si @ E2 @ [])
      (io_bind (throughputs (get_bytes env) d (zip si tx1) []) (\<lambda>thr1.
       io_bind (case other of None \<Rightarrow> io_return thr1
                | Some os \<Rightarrow> throughputs (get_rx_bytes env) d (zip os rx1) thr1) tail))"
    if l: "length tx1 = length si"
      and r: "case other of None \<Rightarrow> True | Some os \<Rightarrow> length rx1 = length os" for tx1 rx1
    by (rule bind_reaches [OF emits_tx_throughputs [OF l]]) (rule p11 [OF r])
  have p9: "reaches ([Sleep (d + 4)] @ map GetBytes si @ E2 @ [])
      (io_bind (sleep env (d + 4)) (\<lambda>u.
       io_bind (throughputs (get_bytes env) d (zip si tx1) []) (\<lambda>thr1.
       io_bind (case other of None \<Rightarrow> io_return thr1
                | Some os \<Rightarrow> throughputs (get_rx_bytes env) d (zip os rx1) thr1) tail)))"
    if l: "length tx1 = length si"
      and r: "case other of None \<Rightarrow> True | Some os \<Rightarrow> length rx1 = length os" for tx1 rx1
    by (rule bind_reaches [OF emits_sleep]) (rule p10 [OF l r])
  have p8: "reaches (E8 @ [Sleep (d + 4)] @ map GetBytes si @ E2 @ [])
      (io_bind (for_each (start_client env s1 s2 (real_of_int bw / real (length s1)))
                 [0..<nat (n div 2)]) (\<lambda>u.
       io_bind (sleep env (d + 4)) (\<lambda>u.
       io_bind (throughputs (get_bytes env) d (zip si tx1) []) (\<lambda>thr1.
       io_bind (case other of None \<Rightarrow> io_return thr1
                | Some os \<Rightarrow> throughputs (get_rx_bytes env) d (zip os rx1) thr1) tail))))"
    if l: "length tx1 = length si"
      and r: "case other of None \<Rightarrow> True | Some os \<Rightarrow> length rx1 = length os" for tx1 rx1
    unfolding E8_def by (rule bind_reaches [OF emits_for_each_clients]) (rule p9 [OF l r])
  have p7: "reaches ([] @ E8 @ [Sleep (d + 4)] @ map GetBytes si @ E2 @ [])
      (io_bind (io_lift (truediv (real_of_int bw) (real (length s1)))) (\<lambda>rate.
       io_bind (for_each (start_client env s1 s2 rate) [0..<nat (n div 2)]) (\<lambda>u.
       io_bind (sleep env (d + 4)) (\<lambda>u.
       io_bind (throughputs (get_bytes env) d (zip si tx1) []) (\<lambda>thr1.
       io_bind (case other of None \<Rightarrow> io_return thr1
                | Some os \<Rightarrow> throughputs (get_rx_bytes env) d (zip os rx1) thr1) tail)))))"
    if l: "length tx1 = length si"
      and r: "case other of None \<Rightarrow> True | Some os \<Rightarrow> length rx1 = length os" for tx1 rx1
  proof (rule bind_reaches [OF emits_lift])
    fix rate
    assume "truediv (real_of_int bw) (real (length s1)) = Inr rate"
    then have "rate = real_of_int bw / real (length s1)"
      by (auto simp: truediv_def split: if_splits)
    with p8 [OF l r]
    show "reaches (E8 @ [Sleep (d + 4)] @ map GetBytes si @ E2 @ [])
      (io_bind (for_each (start_client env s1 s2 rate) [0..<nat (n div 2)]) (\<lambda>u.
       io_bind (sleep env (d + 4)) (\<lambda>u.
       io_bind (throughputs (get_bytes env) d (zip si tx1) []) (\<lambda>thr1.
       io_bind (case other of None \<Rightarrow> io_return thr1
                | Some os \<Rightarrow> throughputs (get_rx_bytes env) d (zip os rx1) thr1) tail))))"
      by simp
  qed
  have p3: "reaches (E3 @ E4 @ [Sleep 2] @ [Makedirs] @ [] @ E8 @ [Sleep (d + 4)]
        @ map GetBytes si @ E2 @ [])
      (io_bind (for_each (generate_certificates env) s2) (\<lambda>u.
       io_bind (for_each (\<lambda>h. perform env (Cmd h StartServer)) s2) (\<lambda>u.
       io_bind (sleep env 2) (\<lambda>u.
       io_bind (perform env Makedirs) (\<lambda>u.
       io_bind (io_lift (truediv (real_of_int bw) (real (length s1)))) (\<lambda>rate.
       io_bind (for_each (start_client env s1 s2 rate) [0..<nat (n div 2)]) (\<lambda>u.
       io_bind (sleep env (d + 4)) (\<lambda>u.
       io_bind (throughputs (get_bytes env) d (zip si tx1) []) (\<lambda>thr1.
       io_bind (case other of None \<Rightarrow> io_return thr1
                | Some os \<Rightarrow> throughputs (get_rx_bytes env) d (zip os rx1) thr1) tail)))))))))"
    if l: "length tx1 = length si"
      and r: "case other of None \<Rightarrow> True | Some os \<Rightarrow> length rx1 = length os" for tx1 rx1
    unfolding E3_def E4_def
    by (rule bind_reaches [OF emits_for_each [OF emits_certificates]],
        rule bind_reaches [OF emits_for_each_perform],
        rule bind_reaches [OF emits_sleep],
        rule bind_reaches [OF emits_perform],
        rule p7 [OF l r])
  have p1: "reaches (map GetBytes si @ E2 @ E3 @ E4 @ [Sleep 2] @ [Makedirs] @ [] @ E8
        @ [Sleep (d + 4)] @ map GetBytes si @ E2 @ [])
      (run_quic_experiments env hs n si d other bw)"
    unfolding run_quic_experiments_def Let_def s1_def [symmetric] s2_def [symmetric]
      tail_def [symmetric] E2_def
    by (rule bind_reaches [OF emits_collect [OF emits_get_bytes]],
        rule bind_reaches [OF emits_rx_snapshot],
        fold E2_def, rule p3)
  have "map GetBytes si @ E2 @ E3 @ E4 @ [Sleep 2] @ [Makedirs] @ [] @ E8
        @ [Sleep (d + 4)] @ map GetBytes si @ E2 @ []
      = window_events hs n si d other bw @ snapshot_events si other"
    by (simp add: window_events_def snapshot_events_def setup_events_def client_events_def
        Let_def E2_def E3_def E4_def E8_def s1_def s2_def)
  with p1 show ?thesis by simp
qed

section \<open>Example runs\<close>

lemmas io_eval = run_quic_experiments_def io_bind_def io_return_def io_raise_def io_lift_def
  perform_def get_bytes_def get_rx_bytes_def generate_certificates_def slice_to_def
  slice_from_def start_client_def sleep_def throughput_mbps_def truediv_def write_opt_def
  aggregate_step_def save_switch_throughput_def remove_raw_def main_run_def Let_def
  host_names_def


lemma example_run:
  "run_quic_experiments example_env [''h0'', ''h1''] 2 [''s1-eth2''] 5 None 10 []
     = (Inr [(''s1-eth2'', 10)],
        [GetBytes ''s1-eth2'', Cmd ''h1'' MkdirCerts, Cmd ''h1'' OpensslReq,
         Cmd ''h1'' StartServer, Sleep 2, Makedirs,
         Cmd ''h0'' (StartClient ''h1'' 10), Sleep 9, GetBytes ''s1-eth2'',
         WriteRtt [(KNum 1, 205 / 10)], WriteCwnd [],
         WriteSwitches [(''s1-eth2'', 10, 5)], Cmd ''h1'' PkillServer,
         Cmd ''h0'' PkillClient, Cmd ''h1'' PkillClient, RemoveRaw])"
  by (simp add: io_eval example_env_def agg_eval)

lemma host_names_2: "host_names 2 = [''h0'', ''h1'']"
  by code_simp



lemma vanishing_run:
  "run_quic_experiments vanishing_env [''h0'', ''h1''] 2 [''s1-eth2''] 5 None 10 []
     = (Inl FileNotFoundError,
        [GetBytes ''s1-eth2'', Cmd ''h1'' MkdirCerts, Cmd ''h1'' OpensslReq,
         Cmd ''h1'' StartServer, Sleep 2, Makedirs,
         Cmd ''h0'' (StartClient ''h1'' 10), Sleep 9])"
  by (simp add: io_eval example_env_def vanishing_env_def)


section \<open>Claims about the run orchestrator\<close>




text \<open>
  Claim C6, as amended. In every run the first counter snapshot is taken before
  anything else: before the receivers are started and before the settle interval of
  2 seconds, hence before any sender starts. The second snapshot comes after the
  sleep of \<open>duration + 4\<close> seconds that follows the start of the senders. A run
  that returns has produced these events in this order; a run that raises has
  produced the first \<open>k\<close> of them, and the fault that stopped it, if one did.
\<close>

theorem C6_snapshots_bracket_the_window:
  "run_quic_experiments env hs n si d other bw [] = (r, tr) \<Longrightarrow>
     window_events hs n si d other bw @ snapshot_events si other
       = map GetBytes si @ (case other of None \<Rightarrow> [] | Some os \<Rightarrow> map GetRxBytes os)
         @ concat (map (\<lambda>h. [Cmd h MkdirCerts, Cmd h OpensslReq]) (slice_from hs (n div 2)))
         @ map (\<lambda>h. Cmd h StartServer) (slice_from hs (n div 2))
         @ [Sleep 2, Makedirs]
         @ map (\<lambda>i. Cmd (slice_to hs (n div 2) ! i)
                       (StartClient (slice_from hs (n div 2) ! i)
                          (real_of_int bw / real (length (slice_to hs (n div 2))))))
             [0..<nat (n div 2)]
         @ [Sleep (d + 4)]
         @ map GetBytes si @ (case other of None \<Rightarrow> [] | Some os \<Rightarrow> map GetRxBytes os)
     \<and> ((\<exists>rest. tr = window_events hs n si d other bw @ snapshot_events si other @ rest)
          \<or> halted (window_events hs n si d other bw @ snapshot_events si other) [] tr)
     \<and> ((\<exists>thr. r = Inr thr) \<longrightarrow>
          (\<exists>rest. tr = window_events hs n si d other bw @ snapshot_events si other @ rest))"
proof -
  assume run: "run_quic_experiments env hs n si d other bw [] = (r, tr)"
  have 1: "window_events hs n si d other bw @ snapshot_events si other
       = map GetBytes si @ (case other of None \<Rightarrow> [] | Some os \<Rightarrow> map GetRxBytes os)
         @ concat (map (\<lambda>h. [Cmd h MkdirCerts, Cmd h OpensslReq]) (slice_from hs (n div 2)))
         @ map (\<lambda>h. Cmd h StartServer) (slice_from hs (n div 2))
         @ [Sleep 2, Makedirs]
         @ map (\<lambda>i. Cmd (slice_to hs (n div 2) ! i)
                       (StartClient (slice_from hs (n div 2) ! i)
                          (real_of_int bw / real (length (slice_to hs (n div 2))))))
             [0..<nat (n div 2)]
         @ [Sleep (d + 4)]
         @ map GetBytes si @ (case other of None \<Rightarrow> [] | Some os \<Rightarrow> map GetRxBytes os)"
    by (simp add: window_events_def snapshot_events_def setup_events_def client_events_def
        Let_def)
  have 2: "(\<exists>rest. tr = window_events hs n si d other bw @ snapshot_events si other @ rest)
          \<or> halted (window_events hs n si d other bw @ snapshot_events si other) [] tr"
    using run_reaches [of hs n si d other bw env] run unfolding reaches_def by fastforce
  have 3: "\<exists>rest. tr = window_events hs n si d other bw @ snapshot_events si other @ rest"
    if "\<exists>thr. r = Inr thr"
  proof -
    from that run obtain thr where
      "run_quic_experiments env hs n si d other bw [] = (Inr thr, tr)" by blast
    from run_success [OF this] show ?thesis by auto
  qed
  from 1 2 3 show ?thesis by blast
qed

theorem C6_snapshots_bracket_the_window_witness:
  "(\<exists>rest.
     [GetBytes ''s1-eth2'', Cmd ''h1'' MkdirCerts, Cmd ''h1'' OpensslReq,
      Cmd ''h1'' StartServer, Sleep 2, Makedirs,
      Cmd ''h0'' (StartClient ''h1'' 10), Sleep 9, GetBytes ''s1-eth2'',
      WriteRtt [(KNum 1, 205 / 10)], WriteCwnd [],
      WriteSwitches [(''s1-eth2'', 10, 5)], Cmd ''h1'' PkillServer,
      Cmd ''h0'' PkillClient, Cmd ''h1'' PkillClient, RemoveRaw]
     = [GetBytes ''s1-eth2'', Cmd ''h1'' MkdirCerts, Cmd ''h1'' OpensslReq,
        Cmd ''h1'' StartServer, Sleep 2, Makedirs,
        Cmd ''h0'' (StartClient ''h1'' 10), Sleep 9, GetBytes ''s1-eth2''] @ rest)
   \<and> halted
        [GetBytes ''s1-eth2'', Cmd ''h1'' MkdirCerts, Cmd ''h1'' OpensslReq,
         Cmd ''h1'' StartServer, Sleep 2, Makedirs,
         Cmd ''h0'' (StartClient ''h1'' 10), Sleep 9, GetBytes ''s1-eth2''] []
        [GetBytes ''s1-eth2'', Cmd ''h1'' MkdirCerts, Cmd ''h1'' OpensslReq,
         Cmd ''h1'' StartServer, Sleep 2, Makedirs,
         Cmd ''h0'' (StartClient ''h1'' 10), Sleep 9]"
proof -
  let ?script = "[GetBytes ''s1-eth2'', Cmd ''h1'' MkdirCerts, Cmd ''h1'' OpensslReq,
        Cmd ''h1'' StartServer, Sleep 2, Makedirs,
        Cmd ''h0'' (StartClient ''h1'' 10), Sleep 9, GetBytes ''s1-eth2'']"
  have script: "window_events [''h0'', ''h1''] 2 [''s1-eth2''] 5 None 10
      @ snapshot_events [''s1-eth2''] None = ?script"
    by (simp add: window_events_def snapshot_events_def setup_events_def client_events_def
        slice_to_def slice_from_def Let_def)
  note ok = C6_snapshots_bracket_the_window [OF example_run]
  note stop = C6_snapshots_bracket_the_window [OF vanishing_run]
  have 1: "\<exists>rest.
     [GetBytes ''s1-eth2'', Cmd ''h1'' MkdirCerts, Cmd ''h1'' OpensslReq,
      Cmd ''h1'' StartServer, Sleep 2, Makedirs,
      Cmd ''h0'' (StartClient ''h1'' 10), Sleep 9, GetBytes ''s1-eth2'',
      WriteRtt [(KNum 1, 205 / 10)], WriteCwnd [],
      WriteSwitches [(''s1-eth2'', 10, 5)], Cmd ''h1'' PkillServer,
      Cmd ''h0'' PkillClient, Cmd ''h1'' PkillClient, RemoveRaw] = ?script @ rest"
    using ok [THEN conjunct2, THEN conjunct2] unfolding append_assoc [symmetric] script
    by blast
  have "(\<exists>rest. [GetBytes ''s1-eth2'', Cmd ''h1'' MkdirCerts, Cmd ''h1'' OpensslReq,
         Cmd ''h1'' StartServer, Sleep 2, Makedirs,
         Cmd ''h0'' (StartClient ''h1'' 10), Sleep 9] = ?script @ rest)
     \<or> halted ?script []
        [GetBytes ''s1-eth2'', Cmd ''h1'' MkdirCerts, Cmd ''h1'' OpensslReq,
         Cmd ''h1'' StartServer, Sleep 2, Makedirs,
         Cmd ''h0'' (StartClient ''h1'' 10), Sleep 9]"
    using stop [THEN conjunct2, THEN conjunct1] unfolding append_assoc [symmetric] script .
  then have 2: "halted ?script []
        [GetBytes ''s1-eth2'', Cmd ''h1'' MkdirCerts, Cmd ''h1'' OpensslReq,
         Cmd ''h1'' StartServer, Sleep 2, Makedirs,
         Cmd ''h0'' (StartClient ''h1'' 10), Sleep 9]"
    by simp
  from 1 2 show ?thesis by blast
qed

text \<open>
  Claim C6 as stated fails: in the example run the first snapshot is taken before
  the receiver on \<open>h1\<close> is started, not after it and the settle interval.
\<close>

theorem C6_first_snapshot_precedes_receivers:
  "run_quic_experiments example_env [''h0'', ''h1''] 2 [''s1-eth2''] 5 None 10 []
     = (Inr [(''s1-eth2'', 10)],
        [GetBytes ''s1-eth2'', Cmd ''h1'' MkdirCerts, Cmd ''h1'' OpensslReq,
         Cmd ''h1'' StartServer, Sleep 2, Makedirs,
         Cmd ''h0'' (StartClient ''h1'' 10), Sleep 9, GetBytes ''s1-eth2'',
         WriteRtt [(KNum 1, 205 / 10)], WriteCwnd [],
         WriteSwitches [(''s1-eth2'', 10, 5)], Cmd ''h1'' PkillServer,
         Cmd ''h0'' PkillClient, Cmd ''h1'' PkillClient, RemoveRaw])
   \<and> takeWhile (\<lambda>ev. ev \<noteq> Cmd ''h1'' StartServer)
        (snd (run_quic_experiments example_env [''h0'', ''h1''] 2 [''s1-eth2''] 5 None 10 []))
       = [GetBytes ''s1-eth2'', Cmd ''h1'' MkdirCerts, Cmd ''h1'' OpensslReq]"
  by (simp add: example_run)

lemma example_no_fault: "fault example_env k = None" "fault vanishing_env k = None"
  by (simp_all add: example_env_def vanishing_env_def)

text \<open>
  Claim C7, as amended. Whatever the run does, return or raise, the experiment
  runner stops the network after it (unless stopping is itself interrupted). The
  processes are killed and the raw metrics file is removed at the end of a run that
  returns: the run has no cleanup of its own for a step that raises.
\<close>

theorem C7_topology_released_after_run:
  "main_run env si other n d bw tr0 = (r, tr) \<Longrightarrow>
     \<exists>r1 tr1.
       run_quic_experiments env (host_names n) (int n) si d other bw tr0 = (r1, tr1)
       \<and> (case fault env (length tr1) of
             None \<Rightarrow> r = Inr () \<and> tr = tr1 @ [NetStop]
           | Some e \<Rightarrow> r = Inl e \<and> tr = tr1 @ [Fault e])
       \<and> (\<forall>thr. r1 = Inr thr \<longrightarrow>
            (\<exists>pre rm. tr1 = pre
                 @ teardown_events (slice_from (host_names n) (int n div 2)) (host_names n) @ rm
               \<and> (rm = [RemoveRaw] \<or> (rm = [] \<and> raw_metrics env = Inl FileNotFoundError)
                    \<or> (\<exists>e. rm = [Fault e]))))"
proof -
  assume m: "main_run env si other n d bw tr0 = (r, tr)"
  obtain r1 tr1 where
    run: "run_quic_experiments env (host_names n) (int n) si d other bw tr0 = (r1, tr1)"
    by (cases "run_quic_experiments env (host_names n) (int n) si d other bw tr0")
  from m run have stop: "perform env NetStop tr1 = (r, tr)"
    by (simp add: main_run_def)
  then have 1: "case fault env (length tr1) of
             None \<Rightarrow> r = Inr () \<and> tr = tr1 @ [NetStop]
           | Some e \<Rightarrow> r = Inl e \<and> tr = tr1 @ [Fault e]"
    by (auto simp: perform_def split: option.splits)
  have 2: "\<exists>pre rm. tr1 = pre
                 @ teardown_events (slice_from (host_names n) (int n div 2)) (host_names n) @ rm
               \<and> (rm = [RemoveRaw] \<or> (rm = [] \<and> raw_metrics env = Inl FileNotFoundError)
                    \<or> (\<exists>e. rm = [Fault e]))"
    if "r1 = Inr thr" for thr
  proof -
    from run that have
      "run_quic_experiments env (host_names n) (int n) si d other bw tr0 = (Inr thr, tr1)"
      by simp
    from run_success [OF this] obtain agg rm where
      t: "tr1 = tr0 @ window_events (host_names n) (int n) si d other bw
            @ snapshot_events si other @ agg
            @ [WriteSwitches (map (\<lambda>(i, t). (i, float_round2 (floating env) t, d)) thr)]
            @ teardown_events (slice_from (host_names n) (int n div 2)) (host_names n) @ rm"
      and rm: "rm = [RemoveRaw] \<or> (rm = [] \<and> raw_metrics env = Inl FileNotFoundError)
               \<or> (\<exists>e. rm = [Fault e])"
      by blast
    from t have "tr1 = (tr0 @ window_events (host_names n) (int n) si d other bw
            @ snapshot_events si other @ agg
            @ [WriteSwitches (map (\<lambda>(i, t). (i, float_round2 (floating env) t, d)) thr)])
            @ teardown_events (slice_from (host_names n) (int n div 2)) (host_names n) @ rm"
      by simp
    with rm show ?thesis by blast
  qed
  from run 1 2 show ?thesis by blast
qed

theorem C7_topology_released_after_run_witness:
  "main_run example_env [''s1-eth2''] None 2 5 10 []
     = (Inr (),
        [GetBytes ''s1-eth2'', Cmd ''h1'' MkdirCerts, Cmd ''h1'' OpensslReq,
         Cmd ''h1'' StartServer, Sleep 2, Makedirs,
         Cmd ''h0'' (StartClient ''h1'' 10), Sleep 9, GetBytes ''s1-eth2'',
         WriteRtt [(KNum 1, 205 / 10)], WriteCwnd [],
         WriteSwitches [(''s1-eth2'', 10, 5)], Cmd ''h1'' PkillServer,
         Cmd ''h0'' PkillClient, Cmd ''h1'' PkillClient, RemoveRaw, NetStop])
   \<and> (\<exists>pre rm.
        [GetBytes ''s1-eth2'', Cmd ''h1'' MkdirCerts, Cmd ''h1'' OpensslReq,
         Cmd ''h1'' StartServer, Sleep 2, Makedirs,
         Cmd ''h0'' (StartClient ''h1'' 10), Sleep 9, GetBytes ''s1-eth2'',
         WriteRtt [(KNum 1, 205 / 10)], WriteCwnd [],
         WriteSwitches [(''s1-eth2'', 10, 5)], Cmd ''h1'' PkillServer,
         Cmd ''h0'' PkillClient, Cmd ''h1'' PkillClient, RemoveRaw]
        = pre @ [Cmd ''h1'' PkillServer, Cmd ''h0'' PkillClient, Cmd ''h1'' PkillClient] @ rm)"
proof -
  let ?tr1 = "[GetBytes ''s1-eth2'', Cmd ''h1'' MkdirCerts, Cmd ''h1'' OpensslReq,
         Cmd ''h1'' StartServer, Sleep 2, Makedirs,
         Cmd ''h0'' (StartClient ''h1'' 10), Sleep 9, GetBytes ''s1-eth2'',
         WriteRtt [(KNum 1, 205 / 10)], WriteCwnd [],
         WriteSwitches [(''s1-eth2'', 10, 5)], Cmd ''h1'' PkillServer,
         Cmd ''h0'' PkillClient, Cmd ''h1'' PkillClient, RemoveRaw]"
  have m: "main_run example_env [''s1-eth2''] None 2 5 10 [] = (Inr (), ?tr1 @ [NetStop])"
    by (simp add: main_run_def host_names_2 example_run perform_def example_no_fault)
  have td: "teardown_events (slice_from (host_names 2) (int 2 div 2)) (host_names 2)
     = [Cmd ''h1'' PkillServer, Cmd ''h0'' PkillClient, Cmd ''h1'' PkillClient]"
    by (simp add: teardown_events_def host_names_2 slice_from_def)
  from C7_topology_released_after_run [OF m] obtain r1 tr1 where
    run: "run_quic_experiments example_env (host_names 2) (int 2) [''s1-eth2''] 5 None 10 []
            = (r1, tr1)"
    and td1: "\<forall>thr. r1 = Inr thr \<longrightarrow>
            (\<exists>pre rm. tr1 = pre
                 @ teardown_events (slice_from (host_names 2) (int 2 div 2)) (host_names 2) @ rm
               \<and> (rm = [RemoveRaw]
                    \<or> (rm = [] \<and> raw_metrics example_env = Inl FileNotFoundError)
                    \<or> (\<exists>e. rm = [Fault e])))"
    by (elim exE conjE) (rule that)
  from run have "r1 = Inr [(''s1-eth2'', 10)]" and "tr1 = ?tr1"
    by (simp_all add: host_names_2 example_run)
  with td1 td have "\<exists>pre rm. ?tr1
        = pre @ [Cmd ''h1'' PkillServer, Cmd ''h0'' PkillClient, Cmd ''h1'' PkillClient] @ rm"
    by metis
  with m show ?thesis by simp
qed

text \<open>
  Claim C7 as stated fails: when the second counter snapshot raises (the interface
  is gone), the network is stopped, but no process is killed and the raw metrics
  file is not removed.
\<close>

theorem C7_no_teardown_after_exception:
  "main_run vanishing_env [''s1-eth2''] None 2 5 10 []
     = (Inr (),
        [GetBytes ''s1-eth2'', Cmd ''h1'' MkdirCerts, Cmd ''h1'' OpensslReq,
         Cmd ''h1'' StartServer, Sleep 2, Makedirs,
         Cmd ''h0'' (StartClient ''h1'' 10), Sleep 9, NetStop])
   \<and> Cmd ''h1'' PkillServer \<notin> set (snd (main_run vanishing_env [''s1-eth2''] None 2 5 10 []))
   \<and> Cmd ''h0'' PkillClient \<notin> set (snd (main_run vanishing_env [''s1-eth2''] None 2 5 10 []))
   \<and> RemoveRaw \<notin> set (snd (main_run vanishing_env [''s1-eth2''] None 2 5 10 []))"
proof -
  have m: "main_run vanishing_env [''s1-eth2''] None 2 5 10 []
     = (Inr (),
        [GetBytes ''s1-eth2'', Cmd ''h1'' MkdirCerts, Cmd ''h1'' OpensslReq,
         Cmd ''h1'' StartServer, Sleep 2, Makedirs,
         Cmd ''h0'' (StartClient ''h1'' 10), Sleep 9, NetStop])"
    by (simp add: main_run_def host_names_2 vanishing_run perform_def example_no_fault)
  show ?thesis unfolding m by simp
qed

section \<open>Properties of the sweep orchestrator\<close>

lemmas sweep_io_defs = sweep_bind_def sweep_return_def sweep_raise_def try_except_def































lemmas sweep_eval = sweep_main_def sweeps_def run_varying_bandwidth_def
  run_varying_delay_def run_varying_loss_def run_varying_def bandwidth_points_def
  delay_points_def loss_points_def BANDWIDTHS_def DELAYS_def LOSSES_def
  FIXED_BW_def FIXED_DELAY_def FIXED_LOSS_def
  run_experiment_def subprocess_run_def extract_results_def read_results_def attempt_def
  sweep_io_defs


lemma unstartable_first_sweep:
  "sweep_main unstartable_first
     = (Uncaught IOError,
        [Ran CheckRunner, Ran MakedirsResults, Ran PrintBanner, Ran (PrintHeader ''bw_vary''),
         Ran (PrintRunning \<lparr>p_bw = 10, p_delay = ''2ms'', p_loss = 2\<rparr>),
         Broke (SubprocessRun ''bw_vary'' \<lparr>p_bw = 10, p_delay = ''2ms'', p_loss = 2\<rparr>) IOError])"
  by (simp add: unstartable_first_def sweep_eval)



section \<open>The monitored interface of the dumbbell topology\<close>

lemma build_4_bottleneck: "inter_switch_interfaces (build 4) = [''s1-eth3'', ''s2-eth3'']"
  by code_simp

lemma build_40_bottleneck: "inter_switch_interfaces (build 40) = [''s1-eth21'', ''s2-eth21'']"
  by code_simp

lemma build_4_interfaces:
  "interfaces (build 4)
     = [''h0-eth0'', ''s1-eth1'', ''h1-eth0'', ''s1-eth2'', ''h2-eth0'', ''s2-eth1'',
        ''h3-eth0'', ''s2-eth2'', ''s1-eth3'', ''s2-eth3'']"
  by code_simp

lemma monitored_missing: "tx_bytes (dumbbell_env 4) k ''s1-eth21'' = None"
  by (simp add: dumbbell_env_def build_4_interfaces)

lemma dumbbell_no_fault: "fault (dumbbell_env n) k = None"
  by (simp add: dumbbell_env_def)

text \<open>
  Claim C1 fails on the code for 4 hosts. The monitored interface is the constant
  \<open>s1-eth21\<close>, which is the \<open>s1\<close> end of the link between the switches when
  there are 40 hosts. With 4 hosts that link ends in \<open>s1-eth3\<close> and \<open>s2-eth3\<close>,
  and the topology has no interface \<open>s1-eth21\<close>: the first counter read of the run
  raises \<open>FileNotFoundError\<close>, nothing is written, and the network is stopped.
\<close>

theorem C1_monitored_interface_missing_for_4_hosts:
  "dumbbell_switch_interface = [''s1-eth21'']
   \<and> inter_switch_interfaces (build 4) = [''s1-eth3'', ''s2-eth3'']
   \<and> ''s1-eth21'' \<notin> set (interfaces (build 4))
   \<and> inter_switch_interfaces (build 40) = [''s1-eth21'', ''s2-eth21'']
   \<and> main_run (dumbbell_env 4) dumbbell_switch_interface None 4 5 10 []
       = (Inr (), [NetStop])"
proof -
  have a: "''s1-eth21'' \<notin> set (interfaces (build 4))"
    by (simp add: build_4_interfaces)
  have r: "run_quic_experiments (dumbbell_env 4) (host_names 4) (int 4)
             dumbbell_switch_interface 5 None 10 []
           = (Inl FileNotFoundError, [])"
    by (simp add: run_quic_experiments_def dumbbell_switch_interface_def io_bind_def
        get_bytes_def monitored_missing dumbbell_no_fault)
  have m: "main_run (dumbbell_env 4) dumbbell_switch_interface None 4 5 10 []
       = (Inr (), [NetStop])"
    using r by (simp add: main_run_def perform_def dumbbell_no_fault)
  from a m build_4_bottleneck build_40_bottleneck show ?thesis
    by (simp add: dumbbell_switch_interface_def)
qed

end
